theory Spec2Isabelle
  imports Complex_Main "HOL-Library.Finite_Map" "HOL-Library.Sublist" "HOL-Library.Multiset"
begin

section \<open>Link resolution and caching pipeline of the addon (src/main.py, src/utils/bd.py)\<close>

subsection \<open>Python values\<close>

text \<open>
  The values that travel through the pipeline are what \<^verbatim>\<open>json.loads\<close> produces: None,
  integers, strings, lists and dictionaries with string keys. Python's \<^verbatim>\<open>bool\<close> is a
  subtype of \<^verbatim>\<open>int\<close> with \<^verbatim>\<open>True == 1\<close> and \<^verbatim>\<open>False == 0\<close>, so a boolean is carried as
  \<open>PInt 1\<close> or \<open>PInt 0\<close>: the code only compares values, tests their truth and
  converts them with \<^verbatim>\<open>int()\<close>, and for all three the two agree. Fractional JSON
  numbers are outside the model. A dictionary is a finite map, so that equality of
  values is Python's \<^verbatim>\<open>==\<close> on them (key order plays no role).
\<close>

datatype pyval =
    PNone
  | PInt int
  | PStr string
  | PList "pyval list"
  | PDict "(string, pyval) fmap"

text \<open>The exceptions (subclasses of \<^verbatim>\<open>Exception\<close>) that the modelled code can meet.\<close>

datatype py_error =
    TypeError
  | ValueError
  | AttributeError
  | OverflowError
  | OperationalError
  | ExternalError string

text \<open>Truth value of a Python object, as \<^verbatim>\<open>if x:\<close> and \<^verbatim>\<open>not x\<close> test it.\<close>

fun truthy :: "pyval \<Rightarrow> bool" where
  "truthy PNone = False"
| "truthy (PInt n) = (n \<noteq> 0)"
| "truthy (PStr s) = (s \<noteq> [])"
| "truthy (PList xs) = (xs \<noteq> [])"
| "truthy (PDict m) = (m \<noteq> fmempty)"

text \<open>\<^verbatim>\<open>d.get(key)\<close>: a method of dictionaries only; any other value has no \<^verbatim>\<open>get\<close>.\<close>

fun py_get :: "pyval \<Rightarrow> string \<Rightarrow> pyval \<Rightarrow> py_error + pyval" where
  "py_get (PDict m) k dflt = Inr (case fmlookup m k of None \<Rightarrow> dflt | Some v \<Rightarrow> v)"
| "py_get _ k dflt = Inl AttributeError"

type_synonym config = "(string, pyval) fmap"

subsection \<open>The static link index (src/utils/bd.py)\<close>

text \<open>
  A row of \<^verbatim>\<open>enlaces_pelis\<close> or \<^verbatim>\<open>enlaces_series\<close>, with the three columns that
  \<^verbatim>\<open>getGood1fichierlink\<close> reads and \<^verbatim>\<open>update_db_movies\<close> / \<^verbatim>\<open>update_db_series\<close> write.
  A column holding SQL NULL reads as None.
\<close>

record row =
  row_link :: string
  FLAG :: "int option"
  enlace_modificado :: "string option"

datatype table = enlaces_pelis | enlaces_series

text \<open>
  The mutable state outside the process's variables: the two tables of the index,
  the hash \<^verbatim>\<open>final_links\<close> of the Redis client, and the log of the promote/copy calls
  (\<^verbatim>\<open>copy_file\<close>) issued so far, newest last. The journal mode belongs to the database
  file: the sources never set it, so a connection finds the file either in SQLite's
  default rollback-journal mode or in write-ahead-log mode (\<open>wal_mode\<close>), as the file was
  made. An entry of the hash is the dictionary
  with the keys \<^verbatim>\<open>config\<close>, \<^verbatim>\<open>link\<close>, \<^verbatim>\<open>final_link\<close>, \<^verbatim>\<open>filesize\<close> that
  \<^verbatim>\<open>_process_and_cache_links\<close> writes with \<^verbatim>\<open>json.dumps\<close> and \<^verbatim>\<open>_handle_playback\<close> reads
  back with \<^verbatim>\<open>json.loads\<close>; on the values of \<open>pyval\<close> the two are inverse to each other,
  so the hash holds the entry itself.
\<close>

record cache_entry =
  entry_config :: config
  entry_link :: string
  entry_final_link :: pyval
  entry_filesize :: int

record world =
  pelis :: "row list"
  series :: "row list"
  final_links :: "string \<rightharpoonup> cache_entry"
  copy_calls :: "(string \<times> string) list"
  wal_mode :: bool

definition rows_of :: "table \<Rightarrow> world \<Rightarrow> row list" where
  "rows_of t w = (case t of enlaces_pelis \<Rightarrow> pelis w | enlaces_series \<Rightarrow> series w)"

text \<open>\<^verbatim>\<open>SELECT FLAG, enlace_modificado FROM t WHERE link = ?\<close> followed by \<^verbatim>\<open>fetchone()\<close>.\<close>

definition fetchone :: "table \<Rightarrow> string \<Rightarrow> world \<Rightarrow> row option" where
  "fetchone t l w = find (\<lambda>r. row_link r = l) (rows_of t w)"

text \<open>\<^verbatim>\<open>UPDATE t SET enlace_modificado = ?, FLAG = 1 WHERE link = ?\<close>: every matching row.\<close>

definition set_rewrite :: "string \<Rightarrow> string \<Rightarrow> row list \<Rightarrow> row list" where
  "set_rewrite url new_link rs =
     map (\<lambda>r. if row_link r = url then r\<lparr>FLAG := Some 1, enlace_modificado := Some new_link\<rparr> else r) rs"

text \<open>
  \<^verbatim>\<open>fetchone()\<close> takes the first row of a SELECT. When more rows match, the statement is
  still running afterwards, and its connection keeps the shared lock on the database file
  until the statement is run again or the connection is closed.
\<close>

definition more_rows :: "table \<Rightarrow> string \<Rightarrow> world \<Rightarrow> bool" where
  "more_rows t l w = (1 < length (filter (\<lambda>r. row_link r = l) (rows_of t w)))"

text \<open>
  \<^verbatim>\<open>update_db_movies\<close> and \<^verbatim>\<open>update_db_series\<close> open a connection of their own
  (\<^verbatim>\<open>get_cursor\<close>), run the UPDATE and commit when the block is left. \<open>reading\<close> tells
  whether another connection is in the middle of a SELECT at that moment. In
  rollback-journal mode the commit needs the exclusive lock, which is not granted while
  a reader holds the shared lock: after the busy timeout \<^verbatim>\<open>sqlite3\<close> raises
  \<^verbatim>\<open>OperationalError\<close> (database is locked) and the UPDATE is rolled back. In
  write-ahead-log mode a writer does not wait for readers.
\<close>

definition update_db_movies :: "string \<Rightarrow> string \<Rightarrow> bool \<Rightarrow> world \<Rightarrow> py_error + world" where
  "update_db_movies url new_link reading w =
     (if reading \<and> \<not> wal_mode w then Inl OperationalError
      else Inr (w\<lparr>pelis := set_rewrite url new_link (pelis w)\<rparr>))"

definition update_db_series :: "string \<Rightarrow> string \<Rightarrow> bool \<Rightarrow> world \<Rightarrow> py_error + world" where
  "update_db_series url new_link reading w =
     (if reading \<and> \<not> wal_mode w then Inl OperationalError
      else Inr (w\<lparr>series := set_rewrite url new_link (series w)\<rparr>))"

text \<open>
  \<^verbatim>\<open>copy_file\<close> (utils/fichier.py) is not part of the sources at hand; it is a parameter:
  given the link and the file name it raises, returns nothing, or returns the pair
  \<^verbatim>\<open>(from_url, to_url)\<close>. Each call is appended to \<open>copy_calls\<close>.
\<close>

type_synonym copy_file_t = "string \<Rightarrow> string \<Rightarrow> py_error + (string \<times> string) option"

text \<open>
  The loop of \<^verbatim>\<open>getGood1fichierlink\<close> over the two tables. A table without a row for the
  link is skipped; the first table with one decides: a row with \<^verbatim>\<open>FLAG == 1\<close> and a
  non-empty \<^verbatim>\<open>enlace_modificado\<close> gives the stored link, otherwise \<^verbatim>\<open>copy_file\<close> is
  called and its \<^verbatim>\<open>to_url\<close> is stored under \<^verbatim>\<open>from_url\<close> and returned; a call without a
  result leaves the loop (\<^verbatim>\<open>break\<close>) and the link itself is returned. The update runs
  inside the block of the cursor that has fetched the row, so the SELECT of this round
  is the reader it meets; an exception of the update leaves the function.
\<close>

fun rewrite_loop ::
  "copy_file_t \<Rightarrow> string \<Rightarrow> string \<Rightarrow> table list \<Rightarrow> world \<Rightarrow> (py_error + string) \<times> world" where
  "rewrite_loop copy_file l file_name [] w = (Inr l, w)"
| "rewrite_loop copy_file l file_name (t # ts) w =
     (case fetchone t l w of
        None \<Rightarrow> rewrite_loop copy_file l file_name ts w
      | Some r \<Rightarrow>
          (if FLAG r = Some 1 \<and> enlace_modificado r \<noteq> None \<and> enlace_modificado r \<noteq> Some []
           then (Inr (the (enlace_modificado r)), w)
           else
             (let w1 = w\<lparr>copy_calls := copy_calls w @ [(l, file_name)]\<rparr> in
              case copy_file l file_name of
                Inl e \<Rightarrow> (Inl e, w1)
              | Inr None \<Rightarrow> (Inr l, w1)
              | Inr (Some (from_url, to_url)) \<Rightarrow>
                  (case (if t = enlaces_pelis
                         then update_db_movies from_url to_url (more_rows t l w1) w1
                         else update_db_series from_url to_url (more_rows t l w1) w1) of
                     Inl e \<Rightarrow> (Inl e, w1)
                   | Inr w2 \<Rightarrow> (Inr to_url, w2)))))"

definition getGood1fichierlink ::
  "copy_file_t \<Rightarrow> string \<Rightarrow> string \<Rightarrow> world \<Rightarrow> (py_error + string) \<times> world" where
  "getGood1fichierlink copy_file l file_name w =
     (if \<not> sublist ''1fichier'' l then (Inr l, w)
      else rewrite_loop copy_file l file_name [enlaces_pelis, enlaces_series] w)"

subsection \<open>The debrid resolver (\<^verbatim>\<open>_get_unrestricted_link\<close>, src/main.py)\<close>

text \<open>
  The debrid backends (package \<^verbatim>\<open>debrid\<close>) are not part of the sources at hand. The
  resolver reads four things of a backend object: the name of its class, its \<^verbatim>\<open>config\<close>
  attribute, and the methods \<^verbatim>\<open>unrestrict_link\<close> and \<^verbatim>\<open>find_link_in_folder\<close>, each of
  which returns a value or raises.
\<close>

record debrid_service =
  debrid_name :: string
  service_config :: config
  unrestrict_link :: "string \<Rightarrow> py_error + pyval"
  find_link_in_folder :: "pyval \<Rightarrow> pyval \<Rightarrow> py_error + pyval"

text \<open>The branch \<^verbatim>\<open>if debrid_name == "RealDebrid"\<close> after the unlock call.\<close>

definition real_debrid_link :: "debrid_service \<Rightarrow> pyval \<Rightarrow> py_error + pyval" where
  "real_debrid_link ds unrestricted_data =
     (let http_folder = (case fmlookup (service_config ds) ''debridHttp'' of None \<Rightarrow> PNone | Some v \<Rightarrow> v) in
      if truthy http_folder then
        (case py_get unrestricted_data ''filename'' PNone of
           Inl e \<Rightarrow> Inl e
         | Inr unrestricted_filename \<Rightarrow>
             if truthy unrestricted_filename then
               (case find_link_in_folder ds http_folder unrestricted_filename of
                  Inl e \<Rightarrow> Inl e
                | Inr folder_link \<Rightarrow>
                    if truthy folder_link then Inr folder_link
                    else py_get unrestricted_data ''download'' PNone)
             else py_get unrestricted_data ''download'' PNone)
      else py_get unrestricted_data ''download'' PNone)"

text \<open>The branch \<^verbatim>\<open>if debrid_name == "AllDebrid"\<close>: \<^verbatim>\<open>unrestricted_data.get('data', {}).get('link')\<close>.\<close>

definition all_debrid_link :: "pyval \<Rightarrow> py_error + pyval" where
  "all_debrid_link unrestricted_data =
     (case py_get unrestricted_data ''data'' (PDict fmempty) of
        Inl e \<Rightarrow> Inl e
      | Inr d \<Rightarrow> py_get d ''link'' PNone)"

text \<open>
  The first statement of the \<^verbatim>\<open>try\<close> block: \<^verbatim>\<open>link_to_unrestrict\<close> is the original link,
  replaced by the result of the rewrite lookup when the backend is RealDebrid.
\<close>

definition link_to_unrestrict ::
  "copy_file_t \<Rightarrow> debrid_service \<Rightarrow> string \<Rightarrow> string \<Rightarrow> world \<Rightarrow> (py_error + string) \<times> world" where
  "link_to_unrestrict copy_file ds original_link file_name w =
     (if debrid_name ds = ''RealDebrid''
      then getGood1fichierlink copy_file original_link file_name w
      else (Inr original_link, w))"

text \<open>The body of the \<^verbatim>\<open>try\<close> block: \<open>Inl\<close> is an exception leaving it.\<close>

definition unrestrict_try ::
  "copy_file_t \<Rightarrow> debrid_service \<Rightarrow> string \<Rightarrow> string \<Rightarrow> world \<Rightarrow> (py_error + pyval) \<times> world" where
  "unrestrict_try copy_file ds original_link file_name w =
     (case link_to_unrestrict copy_file ds original_link file_name w of
        (Inl e, w1) \<Rightarrow> (Inl e, w1)
      | (Inr l', w1) \<Rightarrow>
          (case unrestrict_link ds l' of
             Inl e \<Rightarrow> (Inl e, w1)
           | Inr unrestricted_data \<Rightarrow>
               if \<not> truthy unrestricted_data then (Inr PNone, w1)
               else if debrid_name ds = ''RealDebrid'' then (real_debrid_link ds unrestricted_data, w1)
               else if debrid_name ds = ''AllDebrid'' then (all_debrid_link unrestricted_data, w1)
               else (Inr (PStr original_link), w1)))"

text \<open>
  \<^verbatim>\<open>_get_unrestricted_link\<close>: the \<^verbatim>\<open>try\<close> block with its handler \<^verbatim>\<open>except Exception\<close>, which
  logs and returns None. The result is a value, never an exception.
\<close>

definition get_unrestricted_link ::
  "copy_file_t \<Rightarrow> debrid_service \<Rightarrow> string \<Rightarrow> string \<Rightarrow> world \<Rightarrow> pyval \<times> world" where
  "get_unrestricted_link copy_file ds original_link file_name w =
     (case unrestrict_try copy_file ds original_link file_name w of
        (Inl e, w1) \<Rightarrow> (PNone, w1)
      | (Inr final_link, w1) \<Rightarrow> (final_link, w1))"

subsection \<open>The background orchestrator (\<^verbatim>\<open>_process_and_cache_links\<close>, src/main.py)\<close>

text \<open>
  The dictionary \<^verbatim>\<open>data\<close> of a candidate, as \<^verbatim>\<open>get_results\<close> builds it: the keys \<^verbatim>\<open>link\<close>,
  \<^verbatim>\<open>filesize\<close> and \<^verbatim>\<open>quality\<close> are always there, \<^verbatim>\<open>nombre_fichero\<close> only after a
  successful enrichment.
\<close>

record cand_data =
  data_link :: string
  filesize :: int
  quality :: string
  nombre_fichero :: "string option"

text \<open>
  \<^verbatim>\<open>data.get('filesize', 0) / (1024 ** 3)\<close> is Python's true division of two integers: the
  binary64 number nearest to the quotient (ties to even), or OverflowError when that
  number would not be finite. The divisor is a power of two, so the quotient is rounded
  by rounding the dividend to 53 significant bits. The float is carried as the rational
  number it denotes; Python compares a float with an integer by value.
\<close>

fun bit_length :: "nat \<Rightarrow> nat" where
  "bit_length n = (if n = 0 then 0 else Suc (bit_length (n div 2)))"

declare bit_length.simps [simp del]

definition round53 :: "int \<Rightarrow> int" where
  "round53 s =
     (let a = nat \<bar>s\<bar>; k = bit_length a - 53; p = 2 ^ k;
          m = a div p; r = a mod p;
          m' = (if 2 * r > p \<or> (2 * r = p \<and> odd m) then m + 1 else m)
      in sgn s * int (m' * p))"

definition filesize_gb :: "int \<Rightarrow> py_error + rat" where
  "filesize_gb s =
     (if \<bar>round53 s\<bar> \<ge> 2 ^ 1054 then Inl OverflowError
      else Inr (of_int (round53 s) / (1024 ^ 3)))"

text \<open>
  \<^verbatim>\<open>int(x)\<close> for the values of the configuration: an integer is itself, a string is read
  as a decimal literal (surrounding white space, an optional sign, digits with single
  underscores between them), anything else is a TypeError. A string is a list of
  characters with code points below 256. The white space that \<^verbatim>\<open>int\<close> skips at both ends
  is the ASCII white space (tab, line feed, vertical tab, form feed, carriage return,
  space) and the two other white-space characters of that range, U+0085 and U+00A0; the
  separators U+001C to U+001F are not skipped (\<^verbatim>\<open>str.strip\<close> would remove them). A literal
  of more than 4300 digits is a ValueError (the default limit of CPython 3.11 on the
  conversion of strings to integers).
\<close>

definition is_space :: "char \<Rightarrow> bool" where
  "is_space c = (c \<in> set [CHR 0x09, CHR 0x0A, CHR 0x0B, CHR 0x0C, CHR 0x0D, CHR 0x20,
                           CHR 0x85, CHR 0xA0])"

definition strip :: "string \<Rightarrow> string" where
  "strip s = rev (dropWhile is_space (rev (dropWhile is_space s)))"

definition is_digit :: "char \<Rightarrow> bool" where
  "is_digit c = (48 \<le> (of_char c :: nat) \<and> (of_char c :: nat) \<le> 57)"

definition digit_val :: "char \<Rightarrow> nat" where
  "digit_val c = of_char c - 48"

fun digits_value :: "nat \<Rightarrow> string \<Rightarrow> nat option" where
  "digits_value acc [] = Some acc"
| "digits_value acc [c] = (if is_digit c then Some (10 * acc + digit_val c) else None)"
| "digits_value acc (c # d # cs) =
     (if is_digit c then digits_value (10 * acc + digit_val c) (d # cs)
      else if c = CHR ''_'' \<and> is_digit d then digits_value (10 * acc + digit_val d) cs
      else None)"

definition nat_of_str :: "string \<Rightarrow> nat option" where
  "nat_of_str s =
     (case s of
        [] \<Rightarrow> None
      | c # cs \<Rightarrow>
          if is_digit c \<and> length (filter is_digit s) \<le> 4300 then digits_value (digit_val c) cs
          else None)"

definition int_of_str :: "string \<Rightarrow> int option" where
  "int_of_str s =
     (case strip s of
        [] \<Rightarrow> None
      | c # cs \<Rightarrow>
          if c = CHR ''-'' then map_option (\<lambda>n. - int n) (nat_of_str cs)
          else if c = CHR ''+'' then map_option int (nat_of_str cs)
          else map_option int (nat_of_str (c # cs)))"

fun py_int :: "pyval \<Rightarrow> py_error + int" where
  "py_int (PInt n) = Inr n"
| "py_int (PStr s) = (case int_of_str s of None \<Rightarrow> Inl ValueError | Some n \<Rightarrow> Inr n)"
| "py_int _ = Inl TypeError"

text \<open>
  \<^verbatim>\<open>q in container\<close> for a string \<open>q\<close>: membership in a list, substring of a string, key of
  a dictionary; None and integers are not containers.
\<close>

fun py_in :: "string \<Rightarrow> pyval \<Rightarrow> py_error + bool" where
  "py_in q (PList xs) = Inr (PStr q \<in> set xs)"
| "py_in q (PStr s) = Inr (sublist q s)"
| "py_in q (PDict m) = Inr (fmlookup m q \<noteq> None)"
| "py_in q _ = Inl TypeError"

text \<open>
  The two conditions of the first loop.
  \<^verbatim>\<open>'maxSize' in config and filesize_gb > int(config['maxSize'])\<close> and
  \<^verbatim>\<open>"selectedQualityExclusion" in config and data.get("quality") in config[...]\<close>:
  the right operand of \<^verbatim>\<open>and\<close> is evaluated only when the key is there.
\<close>

definition over_max_size :: "config \<Rightarrow> rat \<Rightarrow> py_error + bool" where
  "over_max_size config gb =
     (case fmlookup config ''maxSize'' of
        None \<Rightarrow> Inr False
      | Some v \<Rightarrow> (case py_int v of Inl e \<Rightarrow> Inl e | Inr c \<Rightarrow> Inr (gb > of_int c)))"

definition quality_excluded :: "config \<Rightarrow> cand_data \<Rightarrow> py_error + bool" where
  "quality_excluded config d =
     (case fmlookup config ''selectedQualityExclusion'' of
        None \<Rightarrow> Inr False
      | Some ex \<Rightarrow> py_in (quality d) ex)"

text \<open>
  One round of the first loop: \<open>Inr True\<close> when the candidate is appended to
  \<^verbatim>\<open>valid_results\<close>, \<open>Inr False\<close> when one of the two \<^verbatim>\<open>continue\<close> statements skips it.
\<close>

definition keep_candidate :: "config \<Rightarrow> cand_data \<Rightarrow> py_error + bool" where
  "keep_candidate config d =
     (case filesize_gb (filesize d) of
        Inl e \<Rightarrow> Inl e
      | Inr gb \<Rightarrow>
          (case over_max_size config gb of
             Inl e \<Rightarrow> Inl e
           | Inr True \<Rightarrow> Inr False
           | Inr False \<Rightarrow>
               (case quality_excluded config d of
                  Inl e \<Rightarrow> Inl e
                | Inr excluded \<Rightarrow> Inr (\<not> excluded))))"

fun valid_results :: "config \<Rightarrow> (string \<times> cand_data) list \<Rightarrow> py_error + (string \<times> cand_data) list" where
  "valid_results config [] = Inr []"
| "valid_results config ((l, d) # rest) =
     (case keep_candidate config d of
        Inl e \<Rightarrow> Inl e
      | Inr k \<Rightarrow>
          (case valid_results config rest of
             Inl e \<Rightarrow> Inl e
           | Inr vs \<Rightarrow> Inr (if k then (l, d) # vs else vs)))"

text \<open>
  \<^verbatim>\<open>valid_results.sort(key=lambda x: x[1].get('filesize', 0), reverse=True)\<close>: Python's sort
  is stable, also with \<^verbatim>\<open>reverse=True\<close>; on integer keys it is the stable ascending sort
  by the negated key.
\<close>

definition sort_by_filesize :: "(string \<times> cand_data) list \<Rightarrow> (string \<times> cand_data) list" where
  "sort_by_filesize vs = sort_key (\<lambda>x. - filesize (snd x)) vs"

definition filter_and_rank :: "config \<Rightarrow> (string \<times> cand_data) list \<Rightarrow> py_error + (string \<times> cand_data) list" where
  "filter_and_rank config results_data =
     (case valid_results config results_data of
        Inl e \<Rightarrow> Inl e
      | Inr vs \<Rightarrow> Inr (sort_by_filesize vs))"

text \<open>
  One round of the second loop. \<^verbatim>\<open>encodeb64\<close> (utils/string_encoding.py) is not part of
  the sources at hand and is a parameter.
\<close>

definition cache_candidate ::
  "copy_file_t \<Rightarrow> (string \<Rightarrow> string) \<Rightarrow> debrid_service \<Rightarrow> config \<Rightarrow> string \<times> cand_data \<Rightarrow> world \<Rightarrow> world" where
  "cache_candidate copy_file encodeb64 ds config c w =
     (let l = fst c; d = snd c;
          file_name = (case nombre_fichero d of None \<Rightarrow> ''unknown'' | Some n \<Rightarrow> n);
          (final_link, w1) = get_unrestricted_link copy_file ds l file_name w
      in if truthy final_link
         then w1\<lparr>final_links := (final_links w1)(encodeb64 l \<mapsto>
                \<lparr>entry_config = config, entry_link = l, entry_final_link = final_link,
                 entry_filesize = filesize d\<rparr>)\<rparr>
         else w1)"

fun cache_all ::
  "copy_file_t \<Rightarrow> (string \<Rightarrow> string) \<Rightarrow> debrid_service \<Rightarrow> config \<Rightarrow> (string \<times> cand_data) list \<Rightarrow> world \<Rightarrow> world" where
  "cache_all copy_file encodeb64 ds config [] w = w"
| "cache_all copy_file encodeb64 ds config (c # cs) w =
     cache_all copy_file encodeb64 ds config cs (cache_candidate copy_file encodeb64 ds config c w)"

definition process_and_cache_links ::
  "copy_file_t \<Rightarrow> (string \<Rightarrow> string) \<Rightarrow> (string \<times> cand_data) list \<Rightarrow> config \<Rightarrow> debrid_service \<Rightarrow> world
     \<Rightarrow> py_error option \<times> world" where
  "process_and_cache_links copy_file encodeb64 results_data config ds w =
     (case filter_and_rank config results_data of
        Inl e \<Rightarrow> (Some e, w)
      | Inr ranked \<Rightarrow> (None, cache_all copy_file encodeb64 ds config ranked w))"

subsection \<open>The listing pipeline (\<^verbatim>\<open>get_results\<close>, src/main.py)\<close>

text \<open>
  \<^verbatim>\<open>get_file_info\<close> (utils/fichier.py) and \<^verbatim>\<open>detect_quality\<close> (utils/detection.py) are not
  part of the sources at hand; both are parameters. A call of \<^verbatim>\<open>get_file_info\<close> raises or
  returns a triple: its first component is never read and is left out; the second is
  the dictionary \<^verbatim>\<open>info_data\<close>, with the optional keys \<^verbatim>\<open>size\<close> and \<^verbatim>\<open>filename\<close>, where
  \<open>None\<close> stands for None or an empty dictionary (both fail the test \<^verbatim>\<open>if info_data\<close>);
  the third is the link under which \<^verbatim>\<open>info_map\<close> files the result.
\<close>

record file_info =
  info_size :: "int option"
  info_filename :: "string option"

type_synonym fetched = "file_info option \<times> string"

type_synonym get_file_info_t = "string \<Rightarrow> py_error + fetched"

text \<open>
  \<^verbatim>\<open>asyncio.gather(*tasks, return_exceptions=True)\<close> over the 1fichier links: one outcome
  per task, in the order of the tasks, an exception being an outcome like any other.
\<close>

definition file_infos :: "get_file_info_t \<Rightarrow> string list \<Rightarrow> (py_error + fetched) list" where
  "file_infos get_file_info search_results =
     map get_file_info (filter (sublist ''1fichier'') search_results)"

text \<open>
  The dictionary comprehension \<^verbatim>\<open>{info[2]: info for info in file_infos if not
  isinstance(info, BaseException)}\<close>: a later outcome replaces an earlier one with the
  same key.
\<close>

definition info_map :: "(py_error + fetched) list \<Rightarrow> (string \<rightharpoonup> fetched)" where
  "info_map infos =
     foldl (\<lambda>m info. case info of Inl e \<Rightarrow> m | Inr i \<Rightarrow> m(snd i \<mapsto> i)) Map.empty infos"

text \<open>The body of the loop \<^verbatim>\<open>for link in search_results\<close> that builds \<^verbatim>\<open>results_data\<close>.\<close>

definition annotate :: "(string \<Rightarrow> string) \<Rightarrow> (string \<rightharpoonup> fetched) \<Rightarrow> string \<Rightarrow> string \<times> cand_data" where
  "annotate detect_quality im l =
     (let data = \<lparr>data_link = l, filesize = 0, quality = [], nombre_fichero = None\<rparr> in
      (l,
       if sublist ''1fichier'' l then
         (case im l of
            None \<Rightarrow> data
          | Some (info_data, k) \<Rightarrow>
              (case info_data of
                 None \<Rightarrow> data
               | Some i \<Rightarrow>
                   (let name = (case info_filename i of None \<Rightarrow> [] | Some f \<Rightarrow> f) in
                    data\<lparr>filesize := (case info_size i of None \<Rightarrow> 0 | Some n \<Rightarrow> n),
                         nombre_fichero := Some name,
                         quality := detect_quality name\<rparr>)))
       else data))"

definition results_data ::
  "(string \<Rightarrow> string) \<Rightarrow> get_file_info_t \<Rightarrow> string list \<Rightarrow> (string \<times> cand_data) list" where
  "results_data detect_quality get_file_info search_results =
     map (annotate detect_quality (info_map (file_infos get_file_info search_results))) search_results"

subsection \<open>The playback resolver (\<^verbatim>\<open>_handle_playback\<close>, src/main.py)\<close>

text \<open>
  \<^verbatim>\<open>parse_config\<close>, \<^verbatim>\<open>decodeb64\<close> and \<^verbatim>\<open>get_debrid_service\<close> are not part of the sources at
  hand; they are parameters, each returning a value or raising. The outcome of a
  playback request is the final link, or one of the two \<^verbatim>\<open>HTTPException\<close>s of the
  function (status 400 and status 500), or an exception of a collaborator, which the
  function does not catch.
\<close>

datatype playback_error = HTTP_400 | HTTP_500 | Raised py_error

text \<open>The part of \<^verbatim>\<open>_handle_playback\<close> below the cache lookup.\<close>

definition resolve_now ::
  "(string \<Rightarrow> py_error + string) \<Rightarrow> (config \<Rightarrow> py_error + debrid_service) \<Rightarrow> copy_file_t \<Rightarrow>
   config \<Rightarrow> string \<Rightarrow> string \<Rightarrow> world \<Rightarrow> (playback_error + pyval) \<times> world" where
  "resolve_now decodeb64 get_debrid_service copy_file config query file_name w =
     (case decodeb64 query of
        Inl e \<Rightarrow> (Inl (Raised e), w)
      | Inr decoded_query \<Rightarrow>
          (case decodeb64 file_name of
             Inl e \<Rightarrow> (Inl (Raised e), w)
           | Inr decoded_file_name \<Rightarrow>
               (case get_debrid_service config of
                  Inl e \<Rightarrow> (Inl (Raised e), w)
                | Inr ds \<Rightarrow>
                    (case get_unrestricted_link copy_file ds decoded_query decoded_file_name w of
                       (final_link, w1) \<Rightarrow>
                         if truthy final_link then (Inr final_link, w1)
                         else (Inl HTTP_500, w1)))))"

definition handle_playback ::
  "(string \<Rightarrow> py_error + config) \<Rightarrow> (string \<Rightarrow> py_error + string) \<Rightarrow>
   (config \<Rightarrow> py_error + debrid_service) \<Rightarrow> copy_file_t \<Rightarrow>
   string \<Rightarrow> string \<Rightarrow> string \<Rightarrow> world \<Rightarrow> (playback_error + pyval) \<times> world" where
  "handle_playback parse_config decodeb64 get_debrid_service copy_file config_str query file_name w =
     (if query = [] then (Inl HTTP_400, w)
      else
        (case parse_config config_str of
           Inl e \<Rightarrow> (Inl (Raised e), w)
         | Inr config \<Rightarrow>
             (case final_links w query of
                None \<Rightarrow> resolve_now decodeb64 get_debrid_service copy_file config query file_name w
              | Some cached_data \<Rightarrow>
                  if entry_config cached_data = config
                  then (Inr (entry_final_link cached_data), w)
                  else resolve_now decodeb64 get_debrid_service copy_file config query file_name w)))"

subsection \<open>Notions used in the statements\<close>

text \<open>
  The row of the index that decides a rewrite lookup: the first row for the link in
  \<^verbatim>\<open>enlaces_pelis\<close>, or else the first one in \<^verbatim>\<open>enlaces_series\<close>.
\<close>

definition index_row :: "string \<Rightarrow> world \<Rightarrow> row option" where
  "index_row l w =
     (case fetchone enlaces_pelis l w of
        Some r \<Rightarrow> Some r
      | None \<Rightarrow> fetchone enlaces_series l w)"

text \<open>The table that holds the deciding row.\<close>

definition index_table :: "string \<Rightarrow> world \<Rightarrow> table" where
  "index_table l w = (if fetchone enlaces_pelis l w \<noteq> None then enlaces_pelis else enlaces_series)"

text \<open>A row carries a persisted rewrite: the flag is set and the replacement is not empty.\<close>

definition has_rewrite :: "row \<Rightarrow> bool" where
  "has_rewrite r = (FLAG r = Some 1 \<and> enlace_modificado r \<noteq> None \<and> enlace_modificado r \<noteq> Some [])"

text \<open>
  The index with a rewrite persisted in table \<open>t\<close>: every row of \<open>t\<close> keyed by \<open>url\<close> carries
  the flag and the replacement; every other row, and the rest of the state, is as before.
\<close>

definition with_rewrite :: "table \<Rightarrow> string \<Rightarrow> string \<Rightarrow> world \<Rightarrow> world" where
  "with_rewrite t url new_link w =
     (case t of
        enlaces_pelis \<Rightarrow>
          w\<lparr>pelis := map (\<lambda>r. if row_link r = url
                               then r\<lparr>FLAG := Some 1, enlace_modificado := Some new_link\<rparr> else r) (pelis w)\<rparr>
      | enlaces_series \<Rightarrow>
          w\<lparr>series := map (\<lambda>r. if row_link r = url
                                then r\<lparr>FLAG := Some 1, enlace_modificado := Some new_link\<rparr> else r) (series w)\<rparr>)"

text \<open>The state after one more promote/copy call for the link.\<close>

definition with_call :: "string \<Rightarrow> string \<Rightarrow> world \<Rightarrow> world" where
  "with_call l file_name w = w\<lparr>copy_calls := copy_calls w @ [(l, file_name)]\<rparr>"

text \<open>
  The deciding row is the only row for the link in its table, or the database is in
  write-ahead-log mode: the states in which the commit of a rewrite is not held up by
  the lookup that triggers it.
\<close>

definition can_commit :: "string \<Rightarrow> world \<Rightarrow> bool" where
  "can_commit l w =
     (wal_mode w \<or> length (filter (\<lambda>r. row_link r = l) (rows_of (index_table l w) w)) \<le> 1)"

text \<open>
  The resolutions of a run over a list of candidates: the resolver is called on the
  candidates in their order, each call in the state that the call before has left, with
  the file name of the candidate (\<^verbatim>\<open>unknown\<close> when it has none). Each outcome is kept with
  its candidate.
\<close>

fun resolve_all ::
  "copy_file_t \<Rightarrow> debrid_service \<Rightarrow> (string \<times> cand_data) list \<Rightarrow> world
     \<Rightarrow> ((string \<times> cand_data) \<times> pyval) list \<times> world" where
  "resolve_all cf ds [] w = ([], w)"
| "resolve_all cf ds (c # cs) w =
     (case get_unrestricted_link cf ds (fst c)
             (case nombre_fichero (snd c) of None \<Rightarrow> ''unknown'' | Some n \<Rightarrow> n) w of
        (fl, w1) \<Rightarrow> (case resolve_all cf ds cs w1 of (rs, w2) \<Rightarrow> ((c, fl) # rs, w2)))"

text \<open>The entry that the orchestrator makes of a candidate and its final link.\<close>

definition entry_of :: "config \<Rightarrow> string \<times> cand_data \<Rightarrow> pyval \<Rightarrow> cache_entry" where
  "entry_of config c fl =
     \<lparr>entry_config = config, entry_link = fst c, entry_final_link = fl, entry_filesize = filesize (snd c)\<rparr>"

text \<open>
  The statement of the filter in the words of the specification. The size in GiB of a
  candidate is the quotient of its size in bytes by \<open>2 ^ 30\<close>, a rational number. A
  candidate passes when this size does not exceed the ceiling, if one is configured, and
  its quality label is not among the excluded labels, if an exclusion set is configured.
\<close>

definition size_in_gib :: "cand_data \<Rightarrow> rat" where
  "size_in_gib d = of_int (filesize d) / 2 ^ 30"

definition passes_filters :: "int option \<Rightarrow> pyval list option \<Rightarrow> cand_data \<Rightarrow> bool" where
  "passes_filters limit exclusion d =
     ((case limit of None \<Rightarrow> True | Some c \<Rightarrow> size_in_gib d \<le> of_int c) \<and>
      (case exclusion of None \<Rightarrow> True | Some labels \<Rightarrow> PStr (quality d) \<notin> set labels))"

text \<open>
  A rational number with at most \<open>b\<close> significant bits. The finite binary64 floats are
  numbers with at most 53 significant bits; of two neighbouring floats, the one with the
  even mantissa has at most 52.
\<close>

definition significant :: "nat \<Rightarrow> rat \<Rightarrow> bool" where
  "significant b x = (\<exists>m e1 e2. (m::nat) < 2 ^ b \<and> \<bar>x\<bar> = of_nat m * 2 ^ e1 / 2 ^ e2)"

text \<open>
  The enrichment fetch for a link failed: the call raised, or it returned no info.
\<close>

definition fetch_failed :: "get_file_info_t \<Rightarrow> string \<Rightarrow> bool" where
  "fetch_failed get_file_info l =
     (case get_file_info l of
        Inl e \<Rightarrow> True
      | Inr (info_data, k) \<Rightarrow> info_data = None)"

text \<open>Every fetch that returns files its result under the link it was asked for.\<close>

definition keyed_by_link :: "get_file_info_t \<Rightarrow> string list \<Rightarrow> bool" where
  "keyed_by_link get_file_info ls =
     list_all (\<lambda>l. case get_file_info l of Inl e \<Rightarrow> True | Inr (info_data, k) \<Rightarrow> k = l) ls"

subsection \<open>Concrete inputs\<close>

definition cand :: "string \<Rightarrow> int \<Rightarrow> string \<Rightarrow> string \<times> cand_data" where
  "cand l s q = (l, \<lparr>data_link = l, filesize = s, quality = q, nombre_fichero = None\<rparr>)"

definition ceiling_config :: "int \<Rightarrow> pyval list \<Rightarrow> config" where
  "ceiling_config c ex = fmupd ''maxSize'' (PInt c) (fmupd ''selectedQualityExclusion'' (PList ex) fmempty)"

definition no_links :: "string \<rightharpoonup> cache_entry" where
  "no_links = Map.empty"

definition copy_nothing :: copy_file_t where
  "copy_nothing l n = Inr None"

definition copy_fails :: copy_file_t where
  "copy_fails l n = Inl (ExternalError ''timeout'')"

definition copy_ok :: copy_file_t where
  "copy_ok l n = Inr (Some (l, ''https://1fichier.com/?copied''))"

definition film_link :: string where
  "film_link = ''https://1fichier.com/?film''"

definition copied_link :: string where
  "copied_link = ''https://1fichier.com/?copied''"

definition film_row :: row where
  "film_row = \<lparr>row_link = ''https://1fichier.com/?film'', FLAG = Some 0, enlace_modificado = Some []\<rparr>"

definition seen_row :: row where
  "seen_row = \<lparr>row_link = ''https://1fichier.com/?film'', FLAG = Some 1,
                enlace_modificado = Some ''https://1fichier.com/?copied''\<rparr>"

definition film_world :: world where
  "film_world = \<lparr>pelis = [film_row], series = [], final_links = no_links, copy_calls = [],
                  wal_mode = False\<rparr>"

definition seen_world :: world where
  "seen_world = \<lparr>pelis = [], series = [seen_row], final_links = no_links, copy_calls = [],
                  wal_mode = False\<rparr>"

definition twin_world :: world where
  "twin_world = \<lparr>pelis = [film_row, film_row], series = [], final_links = no_links, copy_calls = [],
                  wal_mode = False\<rparr>"

definition promoted_world :: world where
  "promoted_world = \<lparr>pelis = [seen_row], series = [], final_links = no_links,
                      copy_calls = [(''https://1fichier.com/?film'', ''film.mkv'')], wal_mode = False\<rparr>"

definition encode_tag :: "string \<Rightarrow> string" where
  "encode_tag l = ''b64:'' @ l"

definition unlock_nested :: "string \<Rightarrow> py_error + pyval" where
  "unlock_nested l = Inr (PDict (fmupd ''data''
                        (PDict (fmupd ''link'' (PStr ''https://cdn.example/file'') fmempty)) fmempty))"

definition unlock_empty :: "string \<Rightarrow> py_error + pyval" where
  "unlock_empty l = Inr PNone"

definition unlock_fails :: "string \<Rightarrow> py_error + pyval" where
  "unlock_fails l = Inl (ExternalError ''503'')"

definition unlock_ok :: "string \<Rightarrow> py_error + pyval" where
  "unlock_ok l = Inr (PDict (fmupd ''download'' (PStr ''https://cdn.example/file'')
                        (fmupd ''filename'' (PStr ''film.mkv'') fmempty)))"

definition unlock_list :: "string \<Rightarrow> py_error + pyval" where
  "unlock_list l = Inr (PList [PStr ''https://cdn.example/file''])"

definition folder_none :: "pyval \<Rightarrow> pyval \<Rightarrow> py_error + pyval" where
  "folder_none f n = Inr PNone"

definition folder_fails :: "pyval \<Rightarrow> pyval \<Rightarrow> py_error + pyval" where
  "folder_fails f n = Inl (ExternalError ''folder'')"

definition backend :: "string \<Rightarrow> config \<Rightarrow> (string \<Rightarrow> py_error + pyval) \<Rightarrow> (pyval \<Rightarrow> pyval \<Rightarrow> py_error + pyval)
    \<Rightarrow> debrid_service" where
  "backend name cfg unlock folder =
     \<lparr>debrid_name = name, service_config = cfg, unrestrict_link = unlock, find_link_in_folder = folder\<rparr>"

definition unlock_some :: "string \<Rightarrow> py_error + pyval" where
  "unlock_some l = (if l = ''https://uptobox.com/b'' then Inr PNone else unlock_nested l)"

definition run_results :: "(string \<times> cand_data) list" where
  "run_results =
     [cand ''https://uptobox.com/c'' 100 ''720p'', cand ''https://uptobox.com/a'' 300 ''1080p'',
      cand ''https://uptobox.com/b'' 200 ''1080p'']"

definition run_ranked :: "(string \<times> cand_data) list" where
  "run_ranked =
     [cand ''https://uptobox.com/a'' 300 ''1080p'', cand ''https://uptobox.com/b'' 200 ''1080p'',
      cand ''https://uptobox.com/c'' 100 ''720p'']"

definition run_outcomes :: "((string \<times> cand_data) \<times> pyval) list" where
  "run_outcomes =
     [(cand ''https://uptobox.com/a'' 300 ''1080p'', PStr ''https://cdn.example/file''),
      (cand ''https://uptobox.com/b'' 200 ''1080p'', PNone),
      (cand ''https://uptobox.com/c'' 100 ''720p'', PStr ''https://cdn.example/file'')]"

definition form_config :: config where
  "form_config = fmupd ''maxSize'' (PStr '' 10 '')
                   (fmupd ''selectedQualityExclusion'' (PList [PStr ''CAM'']) fmempty)"

definition empty_ceiling_config :: config where
  "empty_ceiling_config = fmupd ''maxSize'' (PStr []) fmempty"

definition sample_config :: config where
  "sample_config = ceiling_config 10 [PStr ''CAM'']"

definition sample_results :: "(string \<times> cand_data) list" where
  "sample_results =
     [cand ''L1'' 5368709120 ''1080p'', cand ''L2'' 21474836480 ''4K'',
      cand ''L3'' 734003200 ''CAM'', cand ''L4'' 5368709120 ''720p'',
      cand ''L5'' 8589934592 ''1080p'']"

definition fetch_sample :: get_file_info_t where
  "fetch_sample l =
     (if l = ''https://1fichier.com/?a''
      then Inr (Some \<lparr>info_size = Some 5368709120, info_filename = Some ''Movie.1080p.mkv''\<rparr>, l)
      else if l = ''https://1fichier.com/?b'' then Inl (ExternalError ''timeout'')
      else Inr (None, l))"

definition sample_links :: "string list" where
  "sample_links = [''https://1fichier.com/?a'', ''https://1fichier.com/?b'',
                   ''https://1fichier.com/?c'', ''https://uptobox.com/x'']"

definition film_query :: string where
  "film_query = ''b64:https://1fichier.com/?film''"

definition quality_sample :: "string \<Rightarrow> string" where
  "quality_sample name = (if sublist ''1080p'' name then ''1080p'' else [])"

definition parse_sample :: "string \<Rightarrow> py_error + config" where
  "parse_sample config_str = (if config_str = ''cfg'' then Inr sample_config else Inr fmempty)"

definition decode_tag :: "string \<Rightarrow> py_error + string" where
  "decode_tag s = (if take 4 s = ''b64:'' then Inr (drop 4 s) else Inl ValueError)"

definition service_nested :: "config \<Rightarrow> py_error + debrid_service" where
  "service_nested cfg = Inr (backend ''AllDebrid'' cfg unlock_nested folder_none)"

definition service_empty :: "config \<Rightarrow> py_error + debrid_service" where
  "service_empty cfg = Inr (backend ''AllDebrid'' cfg unlock_empty folder_none)"

definition cached_entry :: cache_entry where
  "cached_entry = \<lparr>entry_config = sample_config, entry_link = ''https://1fichier.com/?film'',
                   entry_final_link = PStr ''https://cdn.example/cached'', entry_filesize = 700\<rparr>"

definition cached_world :: world where
  "cached_world = \<lparr>pelis = [], series = [],
                   final_links = no_links(''b64:https://1fichier.com/?film'' \<mapsto> cached_entry),
                   copy_calls = [], wal_mode = False\<rparr>"

section \<open>Properties\<close>

subsection \<open>Reading integers\<close>

text \<open>
  \<^verbatim>\<open>int\<close> on some strings: white space at both ends (U+00A0 and U+0085 included, U+001C
  not), signs, underscores, and literals that are rejected.
\<close>

lemma int_of_str_examples:
  "int_of_str '' 10 '' = Some 10 \<and> int_of_str ''-1_000'' = Some (- 1000) \<and>
   int_of_str ''+5'' = Some 5 \<and> int_of_str ''007'' = Some 7 \<and>
   int_of_str [CHR 0xA0, CHR ''5'', CHR 0x85] = Some 5 \<and>
   int_of_str [CHR 0x09, CHR ''5'', CHR 0x0D] = Some 5 \<and>
   int_of_str [CHR 0x1C, CHR ''5''] = None \<and>
   int_of_str [] = None \<and> int_of_str '' '' = None \<and> int_of_str ''+ 5'' = None \<and>
   int_of_str ''--5'' = None \<and> int_of_str ''5__5'' = None \<and> int_of_str ''_5'' = None \<and>
   int_of_str ''5_'' = None \<and> int_of_str ''5 5'' = None \<and> int_of_str ''0x10'' = None \<and>
   int_of_str ''10.5'' = None \<and> int_of_str ''1e3'' = None"
  by (simp add: int_of_str_def strip_def is_space_def nat_of_str_def is_digit_def digit_val_def)

subsection \<open>The division by \<open>2 ^ 30\<close>\<close>

lemma bit_length_0: "bit_length 0 = 0"
  by (simp add: bit_length.simps)

lemma bit_length_le: "n < 2 ^ k \<Longrightarrow> bit_length n \<le> k"
proof (induction k arbitrary: n)
  case 0
  then show ?case by (simp add: bit_length_0)
next
  case (Suc k)
  show ?case
  proof (cases "n = 0")
    case True
    then show ?thesis by (simp add: bit_length_0)
  next
    case False
    from Suc.prems have "n div 2 < 2 ^ k" by simp
    then have "bit_length (n div 2) \<le> k" by (rule Suc.IH)
    with False show ?thesis by (subst bit_length.simps) simp
  qed
qed

lemma round53_exact:
  assumes "\<bar>s\<bar> < 2 ^ 53"
  shows "round53 s = s"
proof -
  from assms have "nat \<bar>s\<bar> < 2 ^ 53" by simp
  then have "bit_length (nat \<bar>s\<bar>) \<le> 53" by (rule bit_length_le)
  then have k: "bit_length (nat \<bar>s\<bar>) - 53 = 0" by simp
  have "round53 s = sgn s * int (nat \<bar>s\<bar>)"
    unfolding round53_def Let_def k by simp
  also have "\<dots> = s" by (simp add: sgn_if)
  finally show ?thesis .
qed

lemma bit_length_pos: "n \<noteq> 0 \<Longrightarrow> bit_length n = Suc (bit_length (n div 2))"
  by (subst bit_length.simps) simp

lemma bit_length_bounds: "n \<noteq> 0 \<Longrightarrow> 2 ^ (bit_length n - 1) \<le> n \<and> n < 2 ^ bit_length n"
proof (induction n rule: bit_length.induct)
  case (1 n)
  show ?case
  proof (cases "n div 2 = 0")
    case True
    with 1(2) have "n = 1" by (cases n) auto
    then show ?thesis by (simp add: bit_length.simps)
  next
    case False
    from 1(1) [OF 1(2) False]
    have lo: "2 ^ (bit_length (n div 2) - 1) \<le> n div 2" and hi: "n div 2 < 2 ^ bit_length (n div 2)"
      by simp_all
    have b: "bit_length (n div 2) \<noteq> 0"
      using False by (simp add: bit_length_pos)
    then obtain j where j: "bit_length (n div 2) = Suc j" by (cases "bit_length (n div 2)") simp_all
    from lo j have "2 ^ j \<le> n div 2" by simp
    then have l: "2 ^ Suc j \<le> n" by simp
    from hi j have "n div 2 < 2 ^ Suc j" by simp
    then have h: "n < 2 ^ Suc (Suc j)" by simp
    show ?thesis
      using l h 1(2) by (simp add: bit_length_pos j)
  qed
qed

lemma float_gap:
  fixes m M K A :: nat
  assumes "M < 2 ^ 53" and "2 ^ 52 \<le> m" and "m * 2 ^ K < M * 2 ^ A" and "M * 2 ^ A < (m + 1) * 2 ^ K"
  shows False
proof (cases "K \<le> A")
  case True
  then obtain j where A: "A = K + j" using le_Suc_ex by blast
  from assms(3) have "m * 2 ^ K < (M * 2 ^ j) * 2 ^ K" by (simp add: A power_add mult.commute mult.left_commute)
  then have 1: "m < M * 2 ^ j" by simp
  from assms(4) have "(M * 2 ^ j) * 2 ^ K < (m + 1) * 2 ^ K" by (simp add: A power_add mult.commute mult.left_commute)
  then have 2: "M * 2 ^ j < m + 1" by (simp only: mult_less_cancel2)
  from 1 2 show False by simp
next
  case False
  then obtain j where K: "K = A + Suc j" by (metis less_imp_Suc_add not_le add_Suc_right)
  from assms(3) have "(m * 2 ^ Suc j) * 2 ^ A < M * 2 ^ A" by (simp add: K power_add mult.commute mult.left_commute)
  then have "m * 2 ^ Suc j < M" by simp
  moreover have "m * 2 \<le> m * 2 ^ Suc j" by simp
  moreover have "(2::nat) ^ 53 \<le> m * 2" using assms(2) by simp
  ultimately show False using assms(1) by linarith
qed


lemma round53_nat:
  fixes a :: nat
  shows "(round53 (int a) = int (a div 2 ^ (bit_length a - 53) * 2 ^ (bit_length a - 53)) \<and>
            2 * (a mod 2 ^ (bit_length a - 53)) \<le> 2 ^ (bit_length a - 53) \<and>
            (2 * (a mod 2 ^ (bit_length a - 53)) = 2 ^ (bit_length a - 53) \<longrightarrow>
               even (a div 2 ^ (bit_length a - 53)))) \<or>
         (round53 (int a) = int ((a div 2 ^ (bit_length a - 53) + 1) * 2 ^ (bit_length a - 53)) \<and>
            2 ^ (bit_length a - 53) \<le> 2 * (a mod 2 ^ (bit_length a - 53)) \<and>
            (2 * (a mod 2 ^ (bit_length a - 53)) = 2 ^ (bit_length a - 53) \<longrightarrow>
               odd (a div 2 ^ (bit_length a - 53))))"
proof (cases "a = 0")
  case True
  then show ?thesis by (simp add: round53_def bit_length_0)
next
  case False
  then have "sgn (int a) = 1" by simp
  then show ?thesis
    by (auto simp: round53_def Let_def simp del: of_nat_mult of_nat_add of_nat_power)
qed

lemma mantissa_bounds:
  fixes a :: nat
  assumes "53 < bit_length a"
  shows "2 ^ 52 \<le> a div 2 ^ (bit_length a - 53) \<and> a div 2 ^ (bit_length a - 53) < 2 ^ 53"
proof -
  have nz: "a \<noteq> 0"
  proof
    assume "a = 0"
    with assms show False by (simp add: bit_length_0)
  qed
  obtain k where n: "bit_length a = 53 + Suc k"
    using assms by (metis less_imp_Suc_add add_Suc_right)
  from bit_length_bounds [OF nz] n have lo: "2 ^ (52 + Suc k) \<le> a" and hi: "a < 2 ^ (53 + Suc k)"
    by simp_all
  have k: "bit_length a - 53 = Suc k" using n by simp
  from lo have "2 ^ 52 * 2 ^ Suc k \<le> a" by (simp only: power_add)
  then have 1: "2 ^ 52 \<le> a div 2 ^ Suc k"
    by (simp only: less_eq_div_iff_mult_less_eq [OF zero_less_power [OF zero_less_numeral]])
  from hi have "a < 2 ^ 53 * 2 ^ Suc k" by (simp only: power_add)
  then have 2: "a div 2 ^ Suc k < 2 ^ 53"
    by (simp only: less_mult_imp_div_less)
  show ?thesis
    unfolding k using 1 2 by simp
qed

lemma nearest_nat:
  fixes a :: nat and y :: rat
  assumes "significant 53 y"
  shows "\<bar>of_int (round53 (int a)) - of_nat a\<bar> \<le> \<bar>y - of_nat a\<bar>"
proof (cases "bit_length a \<le> 53")
  case True
  have "a < 2 ^ 53"
  proof (cases "a = 0")
    case True
    then show ?thesis by simp
  next
    case False
    from bit_length_bounds [OF False] have "a < 2 ^ bit_length a" by simp
    also have "(2::nat) ^ bit_length a \<le> 2 ^ 53" using True by (rule power_increasing) simp
    finally show ?thesis .
  qed
  then have "\<bar>int a\<bar> < 2 ^ 53" by simp
  then have "round53 (int a) = int a" by (rule round53_exact)
  then show ?thesis by simp
next
  case False
  then have big: "53 < bit_length a" by simp
  define k where "k = bit_length a - 53"
  define p where "p = (2::nat) ^ k"
  define m where "m = a div p"
  define r where "r = a mod p"
  have a: "a = m * p + r" by (simp add: m_def r_def)
  have rp: "r < p" by (simp add: r_def p_def)
  from mantissa_bounds [OF big] have mb: "2 ^ 52 \<le> m" "m < 2 ^ 53"
    by (simp_all add: m_def p_def k_def)
  have aq: "(of_nat a :: rat) = of_nat m * of_nat p + of_nat r"
    by (simp add: a)
  have rq: "(of_nat r :: rat) < of_nat p" "(0::rat) \<le> of_nat r" "(0::rat) \<le> of_nat m * of_nat p"
    using rp by simp_all
  from round53_nat [of a]
  consider (down) "round53 (int a) = int (m * p)" "2 * r \<le> p"
    | (up) "round53 (int a) = int ((m + 1) * p)" "p \<le> 2 * r"
    by (auto simp: m_def r_def p_def k_def)
  then have d: "\<bar>of_int (round53 (int a)) - (of_nat a :: rat)\<bar> \<le> of_nat r \<and>
                \<bar>of_int (round53 (int a)) - (of_nat a :: rat)\<bar> \<le> of_nat p - of_nat r"
  proof cases
    case down
    from down(2) have "2 * (of_nat r :: rat) \<le> of_nat p"
      by (metis of_nat_le_iff of_nat_mult of_nat_numeral)
    then show ?thesis using rq by (simp add: down(1) aq)
  next
    case up
    from up(2) have "(of_nat p :: rat) \<le> 2 * of_nat r"
      by (metis of_nat_le_iff of_nat_mult of_nat_numeral)
    then show ?thesis using rq by (simp add: up(1) aq algebra_simps)
  qed
  consider (below) "y \<le> of_nat m * of_nat p" | (above) "of_nat m * of_nat p + of_nat p \<le> y"
    | (between) "of_nat m * of_nat p < y" "y < of_nat m * of_nat p + of_nat p"
    by linarith
  then show ?thesis
  proof cases
    case below
    then show ?thesis using d rq unfolding aq by linarith
  next
    case above
    then show ?thesis using d rq unfolding aq by linarith
  next
    case between
    from between(1) rq(3) have "0 < y" by linarith
    with assms obtain M e1 e2 :: nat where M: "M < 2 ^ 53" and y: "y = of_nat M * 2 ^ e1 / 2 ^ e2"
      by (auto simp: significant_def)
    from between(1) have "of_nat m * of_nat p * 2 ^ e2 < (of_nat M :: rat) * 2 ^ e1"
      by (simp add: y pos_less_divide_eq)
    then have "(of_nat (m * 2 ^ (k + e2)) :: rat) < of_nat (M * 2 ^ e1)"
      by (simp add: p_def power_add mult.assoc)
    then have 1: "m * 2 ^ (k + e2) < M * 2 ^ e1"
      by (simp only: of_nat_less_iff)
    from between(2) have "(of_nat M :: rat) * 2 ^ e1 < (of_nat m * of_nat p + of_nat p) * 2 ^ e2"
      by (simp add: y pos_divide_less_eq)
    then have "(of_nat (M * 2 ^ e1) :: rat) < of_nat ((m + 1) * 2 ^ (k + e2))"
      by (simp add: p_def power_add algebra_simps)
    then have 2: "M * 2 ^ e1 < (m + 1) * 2 ^ (k + e2)"
      by (simp only: of_nat_less_iff)
    from float_gap [OF M mb(1) 1 2] show ?thesis ..
  qed
qed


lemma significant_nat:
  fixes m :: nat
  assumes "m < 2 ^ b"
  shows "significant b (of_nat (m * 2 ^ e))"
  unfolding significant_def
proof (intro exI conjI)
  show "m < 2 ^ b" by (rule assms)
  show "\<bar>(of_nat (m * 2 ^ e) :: rat)\<bar> = of_nat m * 2 ^ e / 2 ^ 0" by simp
qed

lemma one_less_two_power: "0 < b \<Longrightarrow> Suc 0 < 2 ^ b"
  using one_less_power [of "2::nat" b] by simp

lemma significant_succ:
  fixes m :: nat
  assumes "m < 2 ^ b" and "0 < b"
  shows "significant b (of_nat ((m + 1) * 2 ^ e))"
proof (cases "m + 1 < 2 ^ b")
  case True
  then show ?thesis by (rule significant_nat)
next
  case False
  with assms have "m + 1 = 2 ^ b" by simp
  then have "(m + 1) * 2 ^ e = 1 * 2 ^ (b + e)" by (simp add: power_add)
  moreover have "significant b (of_nat (1 * 2 ^ (b + e)))"
    by (rule significant_nat) (simp add: one_less_two_power [OF assms(2)])
  ultimately show ?thesis by simp
qed

lemma significant_half:
  fixes m :: nat
  assumes "even m" and "m \<le> 2 ^ Suc b" and "0 < b"
  shows "significant b (of_nat (m * 2 ^ e))"
proof -
  from assms(1) obtain h where h: "m = 2 * h" by (elim evenE)
  with assms(2) have hb: "h \<le> 2 ^ b" by simp
  have e: "m * 2 ^ e = h * 2 ^ Suc e" by (simp add: h)
  show ?thesis
  proof (cases "h < 2 ^ b")
    case True
    then show ?thesis unfolding e by (rule significant_nat)
  next
    case False
    with hb have "h = 2 ^ b" by simp
    then have "m * 2 ^ e = 1 * 2 ^ (b + Suc e)" by (simp add: e power_add)
    moreover have "significant b (of_nat (1 * 2 ^ (b + Suc e)))"
      by (rule significant_nat) (simp add: one_less_two_power [OF assms(3)])
    ultimately show ?thesis by simp
  qed
qed

lemma small_below_2_53:
  fixes a :: nat
  assumes "bit_length a \<le> 53"
  shows "a < 2 ^ 53"
proof (cases "a = 0")
  case True
  then show ?thesis by simp
next
  case False
  from bit_length_bounds [OF False] have "a < 2 ^ bit_length a" by simp
  also have "(2::nat) ^ bit_length a \<le> 2 ^ 53" using assms by (rule power_increasing) simp
  finally show ?thesis .
qed

lemma round53_significant:
  fixes a :: nat
  shows "significant 53 (of_int (round53 (int a)))"
proof (cases "bit_length a \<le> 53")
  case True
  then have a: "a < 2 ^ 53" by (rule small_below_2_53)
  then have "\<bar>int a\<bar> < 2 ^ 53" by simp
  then have "round53 (int a) = int a" by (rule round53_exact)
  moreover have "significant 53 (of_nat (a * 2 ^ 0))" using a by (rule significant_nat)
  ultimately show ?thesis by simp
next
  case False
  then have big: "53 < bit_length a" by simp
  from mantissa_bounds [OF big] have mb: "a div 2 ^ (bit_length a - 53) < 2 ^ 53" by simp
  from round53_nat [of a] show ?thesis
  proof (elim disjE conjE)
    assume "round53 (int a) = int (a div 2 ^ (bit_length a - 53) * 2 ^ (bit_length a - 53))"
    then show ?thesis using significant_nat [OF mb, of "bit_length a - 53"] by simp
  next
    assume "round53 (int a) = int ((a div 2 ^ (bit_length a - 53) + 1) * 2 ^ (bit_length a - 53))"
    then show ?thesis using significant_succ [OF mb, of "bit_length a - 53"] by simp
  qed
qed

lemma round53_bound:
  fixes a :: nat
  assumes "a < 2 ^ n" and "53 \<le> n"
  shows "round53 (int a) \<le> 2 ^ n"
proof (cases "bit_length a \<le> 53")
  case True
  then have "a < 2 ^ 53" by (rule small_below_2_53)
  then have "\<bar>int a\<bar> < 2 ^ 53" by simp
  then have "round53 (int a) = int a" by (rule round53_exact)
  then show ?thesis using assms(1) by simp
next
  case False
  then have big: "53 < bit_length a" by simp
  define k where "k = bit_length a - 53"
  from mantissa_bounds [OF big] have mb: "a div 2 ^ k < 2 ^ 53" by (simp add: k_def)
  have kn: "53 + k \<le> n" using bit_length_le [OF assms(1)] big by (simp add: k_def)
  have "(a div 2 ^ k + 1) * 2 ^ k \<le> 2 ^ 53 * 2 ^ k"
    using mb by (intro mult_right_mono) simp_all
  also have "\<dots> = 2 ^ (53 + k)" by (simp add: power_add)
  also have "\<dots> \<le> 2 ^ n" using kn by (rule power_increasing) simp
  finally have u: "(a div 2 ^ k + 1) * 2 ^ k \<le> 2 ^ n" .
  have "a div 2 ^ k * 2 ^ k \<le> (a div 2 ^ k + 1) * 2 ^ k" by simp
  with u have l: "a div 2 ^ k * 2 ^ k \<le> 2 ^ n" by linarith
  from round53_nat [of a] have "round53 (int a) = int (a div 2 ^ k * 2 ^ k) \<or>
      round53 (int a) = int ((a div 2 ^ k + 1) * 2 ^ k)"
    by (auto simp: k_def)
  then show ?thesis
  proof
    assume "round53 (int a) = int (a div 2 ^ k * 2 ^ k)"
    moreover have "int (a div 2 ^ k * 2 ^ k) \<le> int (2 ^ n)" using l by (simp only: of_nat_le_iff)
    ultimately show ?thesis by simp
  next
    assume "round53 (int a) = int ((a div 2 ^ k + 1) * 2 ^ k)"
    moreover have "int ((a div 2 ^ k + 1) * 2 ^ k) \<le> int (2 ^ n)" using u by (simp only: of_nat_le_iff)
    ultimately show ?thesis by simp
  qed
qed

lemma tie_nat:
  fixes a :: nat and y :: rat
  assumes "significant 53 y" and "y \<noteq> of_int (round53 (int a))"
    and "\<bar>y - of_nat a\<bar> = \<bar>of_int (round53 (int a)) - of_nat a\<bar>"
  shows "significant 52 (of_int (round53 (int a)))"
proof (cases "bit_length a \<le> 53")
  case True
  then have "a < 2 ^ 53" by (rule small_below_2_53)
  then have "\<bar>int a\<bar> < 2 ^ 53" by simp
  then have "round53 (int a) = int a" by (rule round53_exact)
  with assms(2,3) show ?thesis by simp
next
  case False
  then have big: "53 < bit_length a" by simp
  define k where "k = bit_length a - 53"
  define p where "p = (2::nat) ^ k"
  define m where "m = a div p"
  define r where "r = a mod p"
  have a: "a = m * p + r" by (simp add: m_def r_def)
  have rp: "r < p" by (simp add: r_def p_def)
  from mantissa_bounds [OF big] have mb: "2 ^ 52 \<le> m" "m < 2 ^ 53"
    by (simp_all add: m_def p_def k_def)
  have aq: "(of_nat a :: rat) = of_nat m * of_nat p + of_nat r"
    by (simp add: a)
  have rq: "(of_nat r :: rat) < of_nat p" "(0::rat) \<le> of_nat r" "(0::rat) \<le> of_nat m * of_nat p"
    using rp by simp_all
  have gap: False if "of_nat m * of_nat p < y" "y < of_nat m * of_nat p + of_nat p"
  proof -
    from that(1) rq(3) have "0 < y" by linarith
    with assms(1) obtain M e1 e2 :: nat where M: "M < 2 ^ 53" and y: "y = of_nat M * 2 ^ e1 / 2 ^ e2"
      by (auto simp: significant_def)
    from that(1) have "of_nat m * of_nat p * 2 ^ e2 < (of_nat M :: rat) * 2 ^ e1"
      by (simp add: y pos_less_divide_eq)
    then have "(of_nat (m * 2 ^ (k + e2)) :: rat) < of_nat (M * 2 ^ e1)"
      by (simp add: p_def power_add mult.assoc)
    then have 1: "m * 2 ^ (k + e2) < M * 2 ^ e1"
      by (simp only: of_nat_less_iff)
    from that(2) have "(of_nat M :: rat) * 2 ^ e1 < (of_nat m * of_nat p + of_nat p) * 2 ^ e2"
      by (simp add: y pos_divide_less_eq)
    then have "(of_nat (M * 2 ^ e1) :: rat) < of_nat ((m + 1) * 2 ^ (k + e2))"
      by (simp add: p_def power_add algebra_simps)
    then have 2: "M * 2 ^ e1 < (m + 1) * 2 ^ (k + e2)"
      by (simp only: of_nat_less_iff)
    from float_gap [OF M mb(1) 1 2] show False .
  qed
  from round53_nat [of a]
  consider (down) "round53 (int a) = int (m * p)" "2 * r \<le> p" "2 * r = p \<longrightarrow> even m"
    | (up) "round53 (int a) = int ((m + 1) * p)" "p \<le> 2 * r" "2 * r = p \<longrightarrow> odd m"
    by (auto simp: m_def r_def p_def k_def)
  then show ?thesis
  proof cases
    case down
    have R: "(of_int (round53 (int a)) :: rat) = of_nat m * of_nat p" by (simp add: down(1))
    from down(2) have h: "2 * (of_nat r :: rat) \<le> of_nat p"
      by (metis of_nat_le_iff of_nat_mult of_nat_numeral)
    have "\<not> y < of_nat m * of_nat p"
      using assms(3) rq h unfolding R aq by linarith
    moreover have "y \<noteq> of_nat m * of_nat p" using assms(2) R by simp
    moreover have "\<not> (of_nat m * of_nat p < y \<and> y < of_nat m * of_nat p + of_nat p)"
      using gap by blast
    ultimately have "of_nat m * of_nat p + of_nat p \<le> y" by linarith
    then have "(of_nat p :: rat) \<le> 2 * of_nat r"
      using assms(3) rq h unfolding R aq by linarith
    with h have "2 * (of_nat r :: rat) = of_nat p" by linarith
    then have "2 * r = p"
      by (metis of_nat_eq_iff of_nat_mult of_nat_numeral)
    with down(3) have "even m" by simp
    moreover have "m \<le> 2 ^ Suc 52" using mb(2) by simp
    ultimately have "significant 52 (of_nat (m * 2 ^ k))" by (rule significant_half) simp
    then show ?thesis by (simp add: down(1) p_def)
  next
    case up
    have R: "(of_int (round53 (int a)) :: rat) = of_nat m * of_nat p + of_nat p"
      by (simp add: up(1) algebra_simps)
    from up(2) have h: "(of_nat p :: rat) \<le> 2 * of_nat r"
      by (metis of_nat_le_iff of_nat_mult of_nat_numeral)
    have "\<not> of_nat m * of_nat p + of_nat p < y"
      using assms(3) rq h unfolding R aq by linarith
    moreover have "y \<noteq> of_nat m * of_nat p + of_nat p" using assms(2) R by simp
    moreover have "\<not> (of_nat m * of_nat p < y \<and> y < of_nat m * of_nat p + of_nat p)"
      using gap by blast
    ultimately have "y \<le> of_nat m * of_nat p" by linarith
    then have "2 * (of_nat r :: rat) \<le> of_nat p"
      using assms(3) rq h unfolding R aq by linarith
    with h have "2 * (of_nat r :: rat) = of_nat p" by linarith
    then have "2 * r = p"
      by (metis of_nat_eq_iff of_nat_mult of_nat_numeral)
    with up(3) have "odd m" by simp
    then have "even (m + 1)" by simp
    moreover have "m + 1 \<le> 2 ^ Suc 52" using mb(2) by simp
    ultimately have "significant 52 (of_nat ((m + 1) * 2 ^ k))" by (rule significant_half) simp
    then show ?thesis by (simp add: up(1) p_def)
  qed
qed

lemma round53_minus: "round53 (- s) = - round53 s"
  by (simp add: round53_def Let_def)

lemma significant_minus: "significant b (- x) = significant b x"
  by (simp add: significant_def)

lemma significant_times:
  assumes "significant b x"
  shows "significant b (x * 2 ^ j)"
proof -
  from assms obtain m e1 e2 :: nat where m: "m < 2 ^ b" and x: "\<bar>x\<bar> = of_nat m * 2 ^ e1 / 2 ^ e2"
    by (auto simp: significant_def)
  have "\<bar>x * 2 ^ j\<bar> = of_nat m * 2 ^ (e1 + j) / 2 ^ e2"
    by (simp add: abs_mult x power_add)
  with m show ?thesis unfolding significant_def by blast
qed

lemma significant_divide:
  assumes "significant b x"
  shows "significant b (x / 2 ^ j)"
proof -
  from assms obtain m e1 e2 :: nat where m: "m < 2 ^ b" and x: "\<bar>x\<bar> = of_nat m * 2 ^ e1 / 2 ^ e2"
    by (auto simp: significant_def)
  have "\<bar>x / 2 ^ j\<bar> = of_nat m * 2 ^ e1 / 2 ^ (e2 + j)"
    by (simp add: x power_add)
  with m show ?thesis unfolding significant_def by blast
qed

lemma round53_significant_int: "significant 53 (of_int (round53 s))"
proof (cases "0 \<le> s")
  case True
  then have "s = int (nat s)" by simp
  then show ?thesis using round53_significant [of "nat s"] by simp
next
  case False
  then have "- s = int (nat (- s))" by simp
  then have "significant 53 (of_int (round53 (- s)))"
    using round53_significant [of "nat (- s)"] by simp
  then show ?thesis by (simp add: round53_minus significant_minus)
qed

lemma round53_nearest:
  fixes y :: rat
  assumes "significant 53 y"
  shows "\<bar>of_int (round53 s) - of_int s\<bar> \<le> \<bar>y - of_int s\<bar>"
proof (cases "0 \<le> s")
  case True
  then have s: "s = int (nat s)" by simp
  from nearest_nat [OF assms, of "nat s"] s show ?thesis
    by (metis of_int_of_nat_eq)
next
  case False
  then have s: "- s = int (nat (- s))" by simp
  from assms have "significant 53 (- y)" by (simp add: significant_minus)
  from nearest_nat [OF this, of "nat (- s)"] s
  have "\<bar>of_int (round53 (- s)) - of_int (- s)\<bar> \<le> \<bar>- y - of_int (- s)\<bar>"
    by (metis of_int_of_nat_eq)
  then show ?thesis
    unfolding round53_minus of_int_minus by linarith
qed

lemma round53_tie:
  fixes y :: rat
  assumes "significant 53 y" and "y \<noteq> of_int (round53 s)"
    and "\<bar>y - of_int s\<bar> = \<bar>of_int (round53 s) - of_int s\<bar>"
  shows "significant 52 (of_int (round53 s))"
proof (cases "0 \<le> s")
  case True
  then have s: "s = int (nat s)" by simp
  have "significant 52 (of_int (round53 (int (nat s))))"
  proof (rule tie_nat [OF assms(1)])
    show "y \<noteq> of_int (round53 (int (nat s)))" using assms(2) s by simp
    show "\<bar>y - of_nat (nat s)\<bar> = \<bar>of_int (round53 (int (nat s))) - of_nat (nat s)\<bar>"
      using assms(3) s by (metis of_int_of_nat_eq)
  qed
  with s show ?thesis by simp
next
  case False
  then have s: "- s = int (nat (- s))" by simp
  have r: "round53 (int (nat (- s))) = - round53 s"
    using s by (metis round53_minus)
  have q: "(of_nat (nat (- s)) :: rat) = - of_int s"
    using s by (metis of_int_minus of_int_of_nat_eq)
  have "significant 52 (of_int (round53 (int (nat (- s)))))"
  proof (rule tie_nat)
    show "significant 53 (- y)" using assms(1) by (simp add: significant_minus)
    show "- y \<noteq> of_int (round53 (int (nat (- s))))" unfolding r using assms(2) by simp
    show "\<bar>- y - of_nat (nat (- s))\<bar> = \<bar>of_int (round53 (int (nat (- s)))) - of_nat (nat (- s))\<bar>"
      using assms(3) unfolding r q of_int_minus by linarith
  qed
  then have "significant 52 (- rat_of_int (round53 s))" unfolding r of_int_minus .
  then show ?thesis by (simp only: significant_minus)
qed

lemma round53_finite:
  assumes "\<bar>s\<bar> < 2 ^ 1053"
  shows "\<bar>round53 s\<bar> < 2 ^ 1054"
proof -
  have n: "nat \<bar>s\<bar> < 2 ^ 1053" using assms by simp
  have "round53 (int (nat \<bar>s\<bar>)) \<le> 2 ^ 1053"
    using round53_bound [OF n] by simp
  moreover have "\<bar>round53 s\<bar> = round53 (int (nat \<bar>s\<bar>))"
  proof (cases "0 \<le> s")
    case True
    then have e: "int (nat \<bar>s\<bar>) = s" by simp
    have "0 \<le> round53 s" using True by (simp add: round53_def Let_def sgn_if)
    then show ?thesis unfolding e by simp
  next
    case False
    then have e: "int (nat \<bar>s\<bar>) = - s" by simp
    have "round53 s \<le> 0" using False by (simp add: round53_def Let_def sgn_if)
    then show ?thesis unfolding e round53_minus by simp
  qed
  ultimately have "\<bar>round53 s\<bar> \<le> 2 ^ 1053" by simp
  also have "(2::int) ^ 1053 < 2 ^ 1054" by simp
  finally show ?thesis .
qed

lemma round53_above_2_54: "round53 18014398509481985 = 18014398509481984"
proof -
  have b: "bit_length 18014398509481985 = 55"
    by (simp add: bit_length.simps)
  show ?thesis
    by (simp add: round53_def Let_def b)
qed

lemma filesize_gb_exact:
  assumes "\<bar>s\<bar> < 2 ^ 53"
  shows "filesize_gb s = Inr (rat_of_int s / 2 ^ 30)"
proof -
  have e: "round53 s = s"
    using assms by (rule round53_exact)
  have "\<bar>s\<bar> < 2 ^ 1054"
    using assms by (rule less_trans) simp
  then show ?thesis
    by (simp add: filesize_gb_def e)
qed

subsection \<open>Rewrite lookup\<close>

text \<open>
  C10. A link that does not contain \<^verbatim>\<open>1fichier\<close> comes back from the rewrite lookup as it
  is, whatever the index holds and whatever \<^verbatim>\<open>copy_file\<close> would do: the state, and with
  it the log of promote/copy calls, is the one the lookup started from.
\<close>

theorem non_1fichier_link_unchanged:
  "\<not> sublist ''1fichier'' l \<Longrightarrow> getGood1fichierlink copy_file l file_name w = (Inr l, w)"
  by (simp add: getGood1fichierlink_def)

theorem non_1fichier_link_unchanged_witness:
  "\<not> sublist ''1fichier'' ''https://uptobox.com/abc'' \<and>
   getGood1fichierlink (\<lambda>l n. Inr (Some (l, ''https://1fichier.com/?copy''))) ''https://uptobox.com/abc'' ''a.mkv''
     \<lparr>pelis = [\<lparr>row_link = ''https://uptobox.com/abc'', FLAG = Some 0, enlace_modificado = Some []\<rparr>],
      series = [], final_links = Map.empty, copy_calls = [], wal_mode = False\<rparr>
   = (Inr ''https://uptobox.com/abc'',
      \<lparr>pelis = [\<lparr>row_link = ''https://uptobox.com/abc'', FLAG = Some 0, enlace_modificado = Some []\<rparr>],
       series = [], final_links = Map.empty, copy_calls = [], wal_mode = False\<rparr>)"
proof -
  have h: "\<not> sublist ''1fichier'' ''https://uptobox.com/abc''"
    by (simp add: sublist_code)
  show ?thesis
    using h non_1fichier_link_unchanged [OF h] by simp
qed

lemma find_set_rewrite:
  "find (\<lambda>r. row_link r = l) (set_rewrite l t rs) =
   map_option (\<lambda>r. r\<lparr>FLAG := Some 1, enlace_modificado := Some t\<rparr>) (find (\<lambda>r. row_link r = l) rs)"
  by (induction rs) (auto simp: set_rewrite_def)

text \<open>
  C5, as the code has it. For a 1fichier link whose deciding row of the index is \<open>r\<close>: a
  persisted rewrite (flag set, replacement not empty) is returned as it is, and the state,
  with the log of promote/copy calls, stays as it was. Without one the lookup issues
  exactly one promote/copy call. When the call raises, so does the lookup; when it
  returns nothing, the lookup returns the original link and the index is untouched. When
  it returns a pair \<open>(from_url, to_url)\<close> and the deciding row is the only row for the link
  in its table (or the database is in write-ahead-log mode), the lookup returns \<open>to_url\<close>
  and the rows of that table keyed by \<open>from_url\<close> carry the flag and \<open>to_url\<close>, everything
  else being as before; when moreover \<open>from_url\<close> is the link itself and \<open>to_url\<close> is not
  empty, a second lookup of the link in the resulting state returns \<open>to_url\<close> and changes
  nothing, whatever the promote/copy service would answer.
\<close>

theorem rewrite_persisted_once:
  assumes "sublist ''1fichier'' l" and "index_row l w = Some r"
  shows "(has_rewrite r \<longrightarrow>
            getGood1fichierlink copy_file l file_name w = (Inr (the (enlace_modificado r)), w)) \<and>
         (\<not> has_rewrite r \<and> copy_file l file_name = Inl e \<longrightarrow>
            getGood1fichierlink copy_file l file_name w = (Inl e, with_call l file_name w)) \<and>
         (\<not> has_rewrite r \<and> copy_file l file_name = Inr None \<longrightarrow>
            getGood1fichierlink copy_file l file_name w = (Inr l, with_call l file_name w)) \<and>
         (\<not> has_rewrite r \<and> copy_file l file_name = Inr (Some (from_url, to_url)) \<and> can_commit l w \<longrightarrow>
            getGood1fichierlink copy_file l file_name w =
              (Inr to_url, with_rewrite (index_table l w) from_url to_url (with_call l file_name w))) \<and>
         (to_url \<noteq> [] \<longrightarrow>
            getGood1fichierlink copy_file' l file_name'
                (with_rewrite (index_table l w) l to_url (with_call l file_name w)) =
              (Inr to_url, with_rewrite (index_table l w) l to_url (with_call l file_name w)))"
proof (cases "fetchone enlaces_pelis l w")
  case None
  with assms(2) have s: "fetchone enlaces_series l w = Some r"
    by (simp add: index_row_def)
  have t: "index_table l w = enlaces_series"
    using None by (simp add: index_table_def)
  show ?thesis
    unfolding t using assms(1) None s
    by (auto simp: getGood1fichierlink_def has_rewrite_def fetchone_def rows_of_def
        update_db_series_def more_rows_def can_commit_def index_table_def with_rewrite_def
        with_call_def set_rewrite_def find_set_rewrite [unfolded set_rewrite_def] Let_def)
next
  case (Some r')
  with assms(2) have [simp]: "r' = r" by (simp add: index_row_def)
  have t: "index_table l w = enlaces_pelis"
    using Some by (simp add: index_table_def)
  show ?thesis
    unfolding t using assms(1) Some
    by (auto simp: getGood1fichierlink_def has_rewrite_def fetchone_def rows_of_def
        update_db_movies_def more_rows_def can_commit_def index_table_def with_rewrite_def
        with_call_def set_rewrite_def find_set_rewrite [unfolded set_rewrite_def] Let_def)
qed

theorem rewrite_persisted_once_witness:
  "sublist ''1fichier'' film_link \<and> index_row film_link film_world = Some film_row \<and>
   \<not> has_rewrite film_row \<and>
   copy_ok film_link ''film.mkv'' = Inr (Some (film_link, copied_link)) \<and>
   can_commit film_link film_world \<and> copied_link \<noteq> [] \<and>
   getGood1fichierlink copy_ok film_link ''film.mkv'' film_world = (Inr copied_link, promoted_world) \<and>
   getGood1fichierlink copy_fails film_link ''again.mkv'' promoted_world = (Inr copied_link, promoted_world) \<and>
   index_row film_link seen_world = Some seen_row \<and> has_rewrite seen_row \<and>
   getGood1fichierlink copy_fails film_link ''film.mkv'' seen_world = (Inr copied_link, seen_world)"
proof -
  have h1: "sublist ''1fichier'' film_link"
    by (simp add: film_link_def sublist_code)
  have h2: "index_row film_link film_world = Some film_row"
    by (simp add: index_row_def fetchone_def rows_of_def film_world_def film_row_def film_link_def)
  have h3: "\<not> has_rewrite film_row"
    by (simp add: has_rewrite_def film_row_def)
  have h4: "copy_ok film_link ''film.mkv'' = Inr (Some (film_link, copied_link))"
    by (simp add: copy_ok_def copied_link_def)
  have h5: "copied_link \<noteq> []"
    by (simp add: copied_link_def)
  have h6: "index_row film_link seen_world = Some seen_row"
    by (simp add: index_row_def fetchone_def rows_of_def seen_world_def seen_row_def film_link_def)
  have h7: "has_rewrite seen_row"
    by (simp add: has_rewrite_def seen_row_def)
  have h8: "the (enlace_modificado seen_row) = copied_link"
    by (simp add: seen_row_def copied_link_def)
  have h9: "can_commit film_link film_world"
    by (simp add: can_commit_def index_table_def fetchone_def rows_of_def film_world_def film_row_def
        film_link_def)
  have p: "with_rewrite (index_table film_link film_world) film_link copied_link
             (with_call film_link ''film.mkv'' film_world) = promoted_world"
    by (simp add: with_rewrite_def with_call_def index_table_def fetchone_def rows_of_def film_world_def
        film_row_def seen_row_def film_link_def copied_link_def promoted_world_def)
  note t = rewrite_persisted_once [OF h1 h2, where copy_file = copy_ok and file_name = "''film.mkv''"
        and from_url = film_link and to_url = copied_link and copy_file' = copy_fails
        and file_name' = "''again.mkv''"]
  from t h3 h4 h9 have a: "getGood1fichierlink copy_ok film_link ''film.mkv'' film_world
                             = (Inr copied_link, promoted_world)"
    by (simp add: p)
  from t h5 have b: "getGood1fichierlink copy_fails film_link ''again.mkv'' promoted_world
                       = (Inr copied_link, promoted_world)"
    by (simp add: p)
  from rewrite_persisted_once [OF h1 h6, where copy_file = copy_fails and file_name = "''film.mkv''"] h7 h8
  have c: "getGood1fichierlink copy_fails film_link ''film.mkv'' seen_world = (Inr copied_link, seen_world)"
    by simp
  show ?thesis
    using h1 h2 h3 h4 h5 h6 h7 h9 a b c by simp
qed

text \<open>
  C5, as stated, fails: when the promote/copy call returns nothing, the lookup returns the
  original link, the row of the link stays without a rewrite, and the next lookup of the
  link issues a promote/copy call again.
\<close>

theorem rewrite_not_persisted_counterexample:
  "sublist ''1fichier'' film_link \<and> index_row film_link film_world = Some film_row \<and>
   \<not> has_rewrite film_row \<and>
   getGood1fichierlink copy_nothing film_link ''film.mkv'' film_world
     = (Inr film_link, with_call film_link ''film.mkv'' film_world) \<and>
   index_row film_link (with_call film_link ''film.mkv'' film_world) = Some film_row \<and>
   copy_calls (snd (getGood1fichierlink copy_nothing film_link ''film.mkv''
                      (with_call film_link ''film.mkv'' film_world)))
     = [(film_link, ''film.mkv''), (film_link, ''film.mkv'')]"
  by (simp add: getGood1fichierlink_def index_row_def fetchone_def rows_of_def film_world_def
      film_row_def film_link_def has_rewrite_def copy_nothing_def with_call_def sublist_code)

text \<open>
  Outside these states (several rows for the link in the table of its deciding row,
  rollback-journal mode) the SELECT of the lookup is still running when the update
  commits: the commit fails, the lookup raises after its promote/copy call, and nothing
  is stored. The resolver then reports the link as absent.
\<close>

lemma rewrite_blocked_by_reader:
  assumes "sublist ''1fichier'' l" and "index_row l w = Some r" and "\<not> has_rewrite r"
    and "copy_file l file_name = Inr (Some (from_url, to_url))" and "\<not> can_commit l w"
  shows "getGood1fichierlink copy_file l file_name w = (Inl OperationalError, with_call l file_name w)"
proof (cases "fetchone enlaces_pelis l w")
  case None
  with assms(2) have s: "fetchone enlaces_series l w = Some r"
    by (simp add: index_row_def)
  show ?thesis
    using assms(1,3,4,5) None s
    by (auto simp: getGood1fichierlink_def has_rewrite_def fetchone_def rows_of_def
        update_db_series_def more_rows_def can_commit_def index_table_def with_call_def Let_def)
next
  case (Some r')
  with assms(2) have [simp]: "r' = r" by (simp add: index_row_def)
  show ?thesis
    using assms(1,3,4,5) Some
    by (auto simp: getGood1fichierlink_def has_rewrite_def fetchone_def rows_of_def
        update_db_movies_def more_rows_def can_commit_def index_table_def with_call_def Let_def)
qed

lemma duplicate_rows_locked:
  "getGood1fichierlink copy_ok film_link ''film.mkv'' twin_world
     = (Inl OperationalError, with_call film_link ''film.mkv'' twin_world) \<and>
   fst (get_unrestricted_link copy_ok (backend ''RealDebrid'' fmempty unlock_ok folder_none)
          film_link ''film.mkv'' twin_world) = PNone"
  by (simp add: get_unrestricted_link_def unrestrict_try_def link_to_unrestrict_def backend_def
      getGood1fichierlink_def fetchone_def rows_of_def twin_world_def film_row_def film_link_def
      copy_ok_def with_call_def more_rows_def update_db_movies_def sublist_code)

subsection \<open>Resolver\<close>

lemma rewrite_loop_final_links:
  "final_links (snd (rewrite_loop cf l fn ts w)) = final_links w"
  by (induction ts)
     (auto simp: Let_def update_db_movies_def update_db_series_def split: option.splits sum.splits)

lemma link_to_unrestrict_final_links:
  "final_links (snd (link_to_unrestrict cf ds l fn w)) = final_links w"
  by (simp add: link_to_unrestrict_def getGood1fichierlink_def rewrite_loop_final_links
      del: rewrite_loop.simps)

lemma unrestrict_try_snd:
  "snd (unrestrict_try cf ds l fn w) = snd (link_to_unrestrict cf ds l fn w)"
  by (auto simp: unrestrict_try_def split: prod.splits sum.splits)

lemma get_unrestricted_link_snd:
  "snd (get_unrestricted_link cf ds l fn w) = snd (link_to_unrestrict cf ds l fn w)"
  using unrestrict_try_snd [of cf ds l fn w]
  by (auto simp: get_unrestricted_link_def split: prod.splits sum.splits)

lemma get_unrestricted_link_final_links:
  "final_links (snd (get_unrestricted_link cf ds l fn w)) = final_links w"
  by (simp add: get_unrestricted_link_snd link_to_unrestrict_final_links)

text \<open>
  C3. An exception at any stage of the resolution ends in the result None: when the
  rewrite lookup raises, when the backend's unlock call raises, and when the
  post-processing of the RealDebrid or of the AllDebrid branch raises. The resolver's
  result is a value of \<open>pyval\<close> paired with the state; it has no exceptional outcome.
\<close>

theorem resolver_never_raises:
  "(link_to_unrestrict cf ds l fn w = (Inl e, w1) \<longrightarrow>
      get_unrestricted_link cf ds l fn w = (PNone, w1)) \<and>
   (link_to_unrestrict cf ds l fn w = (Inr l', w1) \<and> unrestrict_link ds l' = Inl e \<longrightarrow>
      get_unrestricted_link cf ds l fn w = (PNone, w1)) \<and>
   (link_to_unrestrict cf ds l fn w = (Inr l', w1) \<and> unrestrict_link ds l' = Inr ud \<and> truthy ud \<and>
    debrid_name ds = ''RealDebrid'' \<and> real_debrid_link ds ud = Inl e \<longrightarrow>
      get_unrestricted_link cf ds l fn w = (PNone, w1)) \<and>
   (link_to_unrestrict cf ds l fn w = (Inr l', w1) \<and> unrestrict_link ds l' = Inr ud \<and> truthy ud \<and>
    debrid_name ds = ''AllDebrid'' \<and> all_debrid_link ud = Inl e \<longrightarrow>
      get_unrestricted_link cf ds l fn w = (PNone, w1))"
  by (simp add: get_unrestricted_link_def unrestrict_try_def)

theorem resolver_never_raises_witness:
  "fst (link_to_unrestrict copy_fails (backend ''RealDebrid'' fmempty unlock_ok folder_none)
          film_link ''film.mkv'' film_world) = Inl (ExternalError ''timeout'') \<and>
   fst (get_unrestricted_link copy_fails (backend ''RealDebrid'' fmempty unlock_ok folder_none)
          film_link ''film.mkv'' film_world) = PNone \<and>
   unrestrict_link (backend ''AllDebrid'' fmempty unlock_fails folder_none) film_link
     = Inl (ExternalError ''503'') \<and>
   get_unrestricted_link copy_ok (backend ''AllDebrid'' fmempty unlock_fails folder_none)
          film_link ''film.mkv'' film_world = (PNone, film_world) \<and>
   real_debrid_link (backend ''RealDebrid'' (fmupd ''debridHttp'' (PStr ''https://my.folder/'') fmempty)
                       unlock_ok folder_fails)
      (PDict (fmupd ''download'' (PStr ''https://cdn.example/file'')
                (fmupd ''filename'' (PStr ''film.mkv'') fmempty))) = Inl (ExternalError ''folder'') \<and>
   get_unrestricted_link copy_ok
      (backend ''RealDebrid'' (fmupd ''debridHttp'' (PStr ''https://my.folder/'') fmempty) unlock_ok folder_fails)
      film_link ''film.mkv'' seen_world = (PNone, seen_world) \<and>
   all_debrid_link (PList [PStr ''https://cdn.example/file'']) = Inl AttributeError \<and>
   get_unrestricted_link copy_ok (backend ''AllDebrid'' fmempty unlock_list folder_none)
          film_link ''film.mkv'' film_world = (PNone, film_world)"
proof -
  let ?rd = "backend ''RealDebrid'' fmempty unlock_ok folder_none"
  let ?ad = "backend ''AllDebrid'' fmempty unlock_fails folder_none"
  let ?rf = "backend ''RealDebrid'' (fmupd ''debridHttp'' (PStr ''https://my.folder/'') fmempty) unlock_ok folder_fails"
  let ?al = "backend ''AllDebrid'' fmempty unlock_list folder_none"
  let ?ud = "PDict (fmupd ''download'' (PStr ''https://cdn.example/file'')
                (fmupd ''filename'' (PStr ''film.mkv'') fmempty))"
  have a1: "link_to_unrestrict copy_fails ?rd film_link ''film.mkv'' film_world
            = (Inl (ExternalError ''timeout''), film_world\<lparr>copy_calls := [(film_link, ''film.mkv'')]\<rparr>)"
    by (simp add: link_to_unrestrict_def backend_def getGood1fichierlink_def film_link_def sublist_code
        fetchone_def rows_of_def film_world_def film_row_def copy_fails_def)
  have a2: "link_to_unrestrict copy_ok ?ad film_link ''film.mkv'' film_world = (Inr film_link, film_world)"
    by (simp add: link_to_unrestrict_def backend_def)
  have a3: "unrestrict_link ?ad film_link = Inl (ExternalError ''503'')"
    by (simp add: backend_def unlock_fails_def)
  have a4: "link_to_unrestrict copy_ok ?rf film_link ''film.mkv'' seen_world = (Inr copied_link, seen_world)"
    by (simp add: link_to_unrestrict_def backend_def getGood1fichierlink_def film_link_def sublist_code
        fetchone_def rows_of_def seen_world_def seen_row_def copied_link_def)
  have a5: "unrestrict_link ?rf copied_link = Inr ?ud \<and> truthy ?ud \<and> debrid_name ?rf = ''RealDebrid''"
    by (simp add: backend_def unlock_ok_def)
  have a6: "real_debrid_link ?rf ?ud = Inl (ExternalError ''folder'')"
    by (simp add: real_debrid_link_def backend_def folder_fails_def)
  have a7: "link_to_unrestrict copy_ok ?al film_link ''film.mkv'' film_world = (Inr film_link, film_world)"
    by (simp add: link_to_unrestrict_def backend_def)
  have a8: "unrestrict_link ?al film_link = Inr (PList [PStr ''https://cdn.example/file'']) \<and>
            truthy (PList [PStr ''https://cdn.example/file'']) \<and> debrid_name ?al = ''AllDebrid''"
    by (simp add: backend_def unlock_list_def)
  have a9: "all_debrid_link (PList [PStr ''https://cdn.example/file'']) = Inl AttributeError"
    by (simp add: all_debrid_link_def)
  note r1 = resolver_never_raises [where cf = copy_fails and ds = "?rd" and l = film_link
      and fn = "''film.mkv''" and w = film_world and e = "ExternalError ''timeout''"
      and ?w1.0 = "film_world\<lparr>copy_calls := [(film_link, ''film.mkv'')]\<rparr>"]
  note r2 = resolver_never_raises [where cf = copy_ok and ds = "?ad" and l = film_link
      and fn = "''film.mkv''" and w = film_world and e = "ExternalError ''503''"
      and ?w1.0 = film_world and l' = film_link]
  note r3 = resolver_never_raises [where cf = copy_ok and ds = "?rf" and l = film_link
      and fn = "''film.mkv''" and w = seen_world and e = "ExternalError ''folder''"
      and ?w1.0 = seen_world and l' = copied_link and ud = "?ud"]
  note r4 = resolver_never_raises [where cf = copy_ok and ds = "?al" and l = film_link
      and fn = "''film.mkv''" and w = film_world and e = AttributeError
      and ?w1.0 = film_world and l' = film_link and ud = "PList [PStr ''https://cdn.example/file'']"]
  have b1: "fst (get_unrestricted_link copy_fails ?rd film_link ''film.mkv'' film_world) = PNone"
    using r1 a1 by simp
  have b2: "get_unrestricted_link copy_ok ?ad film_link ''film.mkv'' film_world = (PNone, film_world)"
    using r2 a2 a3 by simp
  have b3: "get_unrestricted_link copy_ok ?rf film_link ''film.mkv'' seen_world = (PNone, seen_world)"
    using r3 a4 a5 a6 by simp
  have b4: "get_unrestricted_link copy_ok ?al film_link ''film.mkv'' film_world = (PNone, film_world)"
    using r4 a7 a8 a9 by simp
  show ?thesis
    using a1 a3 a6 a9 b1 b2 b3 b4 by simp
qed

text \<open>
  C4, as the code has it. A backend that is neither RealDebrid nor AllDebrid is still asked
  to unlock the link: the resolver returns the original link when that call returns a
  non-empty result, and None when the call raises or returns an empty result. The state
  is untouched.
\<close>

theorem unknown_backend_link:
  assumes "debrid_name ds \<noteq> ''RealDebrid''" and "debrid_name ds \<noteq> ''AllDebrid''"
  shows "get_unrestricted_link cf ds l fn w =
           (case unrestrict_link ds l of
              Inl e \<Rightarrow> PNone
            | Inr ud \<Rightarrow> if truthy ud then PStr l else PNone, w)"
  using assms
  by (simp add: get_unrestricted_link_def unrestrict_try_def link_to_unrestrict_def split: sum.splits)

theorem unknown_backend_link_witness:
  "debrid_name (backend ''Premiumize'' fmempty unlock_ok folder_none) \<noteq> ''RealDebrid'' \<and>
   debrid_name (backend ''Premiumize'' fmempty unlock_ok folder_none) \<noteq> ''AllDebrid'' \<and>
   get_unrestricted_link copy_ok (backend ''Premiumize'' fmempty unlock_ok folder_none)
      film_link ''film.mkv'' film_world = (PStr film_link, film_world)"
proof -
  have h1: "debrid_name (backend ''Premiumize'' fmempty unlock_ok folder_none) \<noteq> ''RealDebrid''"
    by (simp add: backend_def)
  have h2: "debrid_name (backend ''Premiumize'' fmempty unlock_ok folder_none) \<noteq> ''AllDebrid''"
    by (simp add: backend_def)
  show ?thesis
    using h1 h2 unknown_backend_link [OF h1 h2, of copy_ok film_link "''film.mkv''" film_world]
    by (simp add: backend_def unlock_ok_def)
qed

text \<open>
  C4, as stated, fails: a backend of another class whose unlock call returns None makes
  the resolver return None, not the original link.
\<close>

theorem unknown_backend_counterexample:
  "debrid_name (backend ''Premiumize'' fmempty unlock_empty folder_none) \<noteq> ''RealDebrid'' \<and>
   debrid_name (backend ''Premiumize'' fmempty unlock_empty folder_none) \<noteq> ''AllDebrid'' \<and>
   fst (get_unrestricted_link copy_nothing (backend ''Premiumize'' fmempty unlock_empty folder_none)
          ''https://uptobox.com/abc'' ''a.mkv'' film_world) = PNone \<and>
   fst (get_unrestricted_link copy_nothing (backend ''Premiumize'' fmempty unlock_empty folder_none)
          ''https://uptobox.com/abc'' ''a.mkv'' film_world) \<noteq> PStr ''https://uptobox.com/abc''"
  by (simp add: get_unrestricted_link_def unrestrict_try_def link_to_unrestrict_def backend_def
      unlock_empty_def)

subsection \<open>Orchestrator\<close>

lemma rewrite_loop_cache_free:
  "rewrite_loop cf l fn ts (w\<lparr>final_links := m\<rparr>) =
     (fst (rewrite_loop cf l fn ts w), (snd (rewrite_loop cf l fn ts w))\<lparr>final_links := m\<rparr>)"
  by (induction ts)
     (auto simp: Let_def fetchone_def rows_of_def more_rows_def update_db_movies_def
        update_db_series_def split: option.splits sum.splits table.splits)

lemma get_unrestricted_link_cache_free:
  "get_unrestricted_link cf ds l fn (w\<lparr>final_links := m\<rparr>) =
     (fst (get_unrestricted_link cf ds l fn w),
      (snd (get_unrestricted_link cf ds l fn w))\<lparr>final_links := m\<rparr>)"
  by (simp add: get_unrestricted_link_def unrestrict_try_def link_to_unrestrict_def
      getGood1fichierlink_def rewrite_loop_cache_free split: prod.splits sum.splits
      del: rewrite_loop.simps)

lemma resolve_all_step:
  "resolve_all cf ds (c # cs) w =
     ((c, fst (get_unrestricted_link cf ds (fst c)
                 (case nombre_fichero (snd c) of None \<Rightarrow> ''unknown'' | Some n \<Rightarrow> n) w))
        # fst (resolve_all cf ds cs
                (snd (get_unrestricted_link cf ds (fst c)
                        (case nombre_fichero (snd c) of None \<Rightarrow> ''unknown'' | Some n \<Rightarrow> n) w))),
      snd (resolve_all cf ds cs
             (snd (get_unrestricted_link cf ds (fst c)
                     (case nombre_fichero (snd c) of None \<Rightarrow> ''unknown'' | Some n \<Rightarrow> n) w))))"
  by (simp split: prod.splits)

lemma resolve_all_cache_free:
  "resolve_all cf ds cs (w\<lparr>final_links := m\<rparr>) =
     (fst (resolve_all cf ds cs w), (snd (resolve_all cf ds cs w))\<lparr>final_links := m\<rparr>)"
proof (induction cs arbitrary: w)
  case Nil
  then show ?case by simp
next
  case (Cons c cs)
  show ?case
    by (simp only: resolve_all_step get_unrestricted_link_cache_free fst_conv snd_conv Cons)
qed

lemma resolve_all_final_links:
  "final_links (snd (resolve_all cf ds cs w)) = final_links w"
proof (induction cs arbitrary: w)
  case Nil
  then show ?case by simp
next
  case (Cons c cs)
  show ?case
    by (simp only: resolve_all_step snd_conv Cons get_unrestricted_link_final_links)
qed

lemma resolve_all_candidates:
  "map fst (fst (resolve_all cf ds cs w)) = cs"
proof (induction cs arbitrary: w)
  case Nil
  then show ?case by simp
next
  case (Cons c cs)
  show ?case
    by (simp only: resolve_all_step fst_conv list.map Cons)
qed

lemma cache_candidate_resolves:
  assumes "get_unrestricted_link cf ds (fst c)
             (case nombre_fichero (snd c) of None \<Rightarrow> ''unknown'' | Some n \<Rightarrow> n) w = (fl, w1)"
  shows "cache_candidate cf enc ds config c w =
           w1\<lparr>final_links := (if truthy fl then (final_links w)(enc (fst c) \<mapsto> entry_of config c fl)
                               else final_links w)\<rparr>"
proof -
  have "final_links w1 = final_links w"
    using get_unrestricted_link_final_links
      [of cf ds "fst c" "case nombre_fichero (snd c) of None \<Rightarrow> ''unknown'' | Some n \<Rightarrow> n" w] assms
    by simp
  then show ?thesis
    using assms by (simp add: cache_candidate_def entry_of_def Let_def)
qed

lemma cache_all_resolves:
  "cache_all cf enc ds config cs w =
     (snd (resolve_all cf ds cs w))
       \<lparr>final_links :=
          foldl (\<lambda>m (c, fl). if truthy fl then m(enc (fst c) \<mapsto> entry_of config c fl) else m)
            (final_links w) (fst (resolve_all cf ds cs w))\<rparr>"
proof (induction cs arbitrary: w)
  case Nil
  then show ?case by simp
next
  case (Cons c cs)
  let ?fn = "case nombre_fichero (snd c) of None \<Rightarrow> ''unknown'' | Some n \<Rightarrow> n"
  obtain fl w1 where g: "get_unrestricted_link cf ds (fst c) ?fn w = (fl, w1)"
    by (cases "get_unrestricted_link cf ds (fst c) ?fn w")
  have r: "resolve_all cf ds (c # cs) w =
             ((c, fl) # fst (resolve_all cf ds cs w1), snd (resolve_all cf ds cs w1))"
    by (simp only: resolve_all_step g fst_conv snd_conv)
  show ?case
    by (simp add: r cache_candidate_resolves [OF g] Cons resolve_all_cache_free
        del: resolve_all.simps)
qed

lemma foldl_cache_lookup:
  "foldl (\<lambda>m (c, fl). if truthy fl then m(enc (fst c) \<mapsto> entry_of config c fl) else m) m0 outcomes k =
     (case find (\<lambda>(c, fl). truthy fl \<and> enc (fst c) = k) (rev outcomes) of
        None \<Rightarrow> m0 k
      | Some (c, fl) \<Rightarrow> Some (entry_of config c fl))"
  by (induction outcomes rule: rev_induct) (auto split: prod.splits)

text \<open>
  C6. A run of the orchestrator whose filter and rank step yields the list \<open>ranked\<close>
  resolves every candidate of that list, in its order, whatever the outcomes of the
  candidates before it. Afterwards the hash holds, under the key \<open>encodeb64\<close> of the
  original link of a candidate whose resolution gave a link (a true value), the one
  entry made of the configuration, the original link, the final link and the file size
  of the latest such candidate; every other key is as it was before the run. A
  candidate whose resolution is absent writes nothing. The rest of the state is what
  the resolutions alone leave.
\<close>

theorem orchestrator_caches_success:
  assumes "filter_and_rank config results = Inr ranked"
    and "resolve_all cf ds ranked w = (outcomes, w1)"
  shows "\<exists>w'. process_and_cache_links cf enc results config ds w = (None, w') \<and>
           map fst outcomes = ranked \<and>
           w'\<lparr>final_links := final_links w\<rparr> = w1 \<and>
           (\<forall>k. final_links w' k =
              (case find (\<lambda>(c, fl). truthy fl \<and> enc (fst c) = k) (rev outcomes) of
                 None \<Rightarrow> final_links w k
               | Some (c, fl) \<Rightarrow>
                   Some \<lparr>entry_config = config, entry_link = fst c, entry_final_link = fl,
                         entry_filesize = filesize (snd c)\<rparr>))"
proof -
  let ?w' = "cache_all cf enc ds config ranked w"
  have p: "process_and_cache_links cf enc results config ds w = (None, ?w')"
    using assms(1) by (simp add: process_and_cache_links_def)
  have c: "map fst outcomes = ranked"
    using resolve_all_candidates [of cf ds ranked w] assms(2) by simp
  have f: "final_links w1 = final_links w"
    using resolve_all_final_links [of cf ds ranked w] assms(2) by simp
  have e: "?w' = w1\<lparr>final_links :=
             foldl (\<lambda>m (c, fl). if truthy fl then m(enc (fst c) \<mapsto> entry_of config c fl) else m)
               (final_links w) outcomes\<rparr>"
    using cache_all_resolves [of cf enc ds config ranked w] assms(2) by simp
  have r: "?w'\<lparr>final_links := final_links w\<rparr> = w1"
    using f by (simp add: e)
  have l: "final_links ?w' k =
              (case find (\<lambda>(c, fl). truthy fl \<and> enc (fst c) = k) (rev outcomes) of
                 None \<Rightarrow> final_links w k
               | Some (c, fl) \<Rightarrow>
                   Some \<lparr>entry_config = config, entry_link = fst c, entry_final_link = fl,
                         entry_filesize = filesize (snd c)\<rparr>)" for k
    unfolding e by (simp add: foldl_cache_lookup) (simp add: entry_of_def cong: option.case_cong)
  show ?thesis
    using p c r l by blast
qed

theorem orchestrator_caches_success_witness:
  "filter_and_rank fmempty run_results = Inr run_ranked \<and>
   resolve_all copy_nothing (backend ''AllDebrid'' fmempty unlock_some folder_none) run_ranked film_world
     = (run_outcomes, film_world) \<and>
   fst (process_and_cache_links copy_nothing encode_tag run_results fmempty
          (backend ''AllDebrid'' fmempty unlock_some folder_none) film_world) = None \<and>
   final_links (snd (process_and_cache_links copy_nothing encode_tag run_results fmempty
          (backend ''AllDebrid'' fmempty unlock_some folder_none) film_world)) ''b64:https://uptobox.com/a''
     = Some \<lparr>entry_config = fmempty, entry_link = ''https://uptobox.com/a'',
             entry_final_link = PStr ''https://cdn.example/file'', entry_filesize = 300\<rparr> \<and>
   final_links (snd (process_and_cache_links copy_nothing encode_tag run_results fmempty
          (backend ''AllDebrid'' fmempty unlock_some folder_none) film_world)) ''b64:https://uptobox.com/b''
     = None \<and>
   final_links (snd (process_and_cache_links copy_nothing encode_tag run_results fmempty
          (backend ''AllDebrid'' fmempty unlock_some folder_none) film_world)) ''b64:https://uptobox.com/c''
     = Some \<lparr>entry_config = fmempty, entry_link = ''https://uptobox.com/c'',
             entry_final_link = PStr ''https://cdn.example/file'', entry_filesize = 100\<rparr>"
proof -
  let ?ds = "backend ''AllDebrid'' fmempty unlock_some folder_none"
  let ?run = "process_and_cache_links copy_nothing encode_tag run_results fmempty ?ds film_world"
  have k: "keep_candidate fmempty (snd (cand l n q)) = Inr True" if "\<bar>n\<bar> < 2 ^ 53" for l n q
  proof -
    have "round53 n = n" using that by (rule round53_exact)
    moreover have "\<bar>n\<bar> < 2 ^ 1054" using that by (rule less_trans) simp
    ultimately show ?thesis
      by (simp add: keep_candidate_def filesize_gb_def over_max_size_def quality_excluded_def cand_def)
  qed
  have v: "valid_results fmempty run_results = Inr run_results"
    using k [of 100] k [of 300] k [of 200] by (simp add: run_results_def cand_def)
  have h1: "filter_and_rank fmempty run_results = Inr run_ranked"
    by (simp add: filter_and_rank_def v) (simp add: sort_by_filesize_def run_results_def run_ranked_def cand_def)
  have h2: "resolve_all copy_nothing ?ds run_ranked film_world = (run_outcomes, film_world)"
    by (simp add: run_ranked_def run_outcomes_def cand_def get_unrestricted_link_def unrestrict_try_def
        link_to_unrestrict_def backend_def unlock_some_def unlock_nested_def all_debrid_link_def)
  from orchestrator_caches_success [OF h1 h2, of encode_tag] obtain w' where
    p: "?run = (None, w')"
    and l: "\<forall>k. final_links w' k =
              (case find (\<lambda>(c, fl). truthy fl \<and> encode_tag (fst c) = k) (rev run_outcomes) of
                 None \<Rightarrow> final_links film_world k
               | Some (c, fl) \<Rightarrow>
                   Some \<lparr>entry_config = fmempty, entry_link = fst c, entry_final_link = fl,
                         entry_filesize = filesize (snd c)\<rparr>)"
    by blast
  have f: "final_links film_world ''b64:https://uptobox.com/b'' = None"
    by (simp add: film_world_def no_links_def)
  have a: "fst ?run = None"
    by (simp add: p)
  have b: "final_links (snd ?run) ''b64:https://uptobox.com/a''
     = Some \<lparr>entry_config = fmempty, entry_link = ''https://uptobox.com/a'',
             entry_final_link = PStr ''https://cdn.example/file'', entry_filesize = 300\<rparr>"
    using l [rule_format, of "''b64:https://uptobox.com/a''"]
    by (simp add: p run_outcomes_def cand_def encode_tag_def)
  have c: "final_links (snd ?run) ''b64:https://uptobox.com/b'' = None"
    using l [rule_format, of "''b64:https://uptobox.com/b''"] f
    by (simp add: p run_outcomes_def cand_def encode_tag_def)
  have d: "final_links (snd ?run) ''b64:https://uptobox.com/c''
     = Some \<lparr>entry_config = fmempty, entry_link = ''https://uptobox.com/c'',
             entry_final_link = PStr ''https://cdn.example/file'', entry_filesize = 100\<rparr>"
    using l [rule_format, of "''b64:https://uptobox.com/c''"]
    by (simp add: p run_outcomes_def cand_def encode_tag_def)
  show ?thesis
    by (rule conjI [OF h1 conjI [OF h2 conjI [OF a conjI [OF b conjI [OF c d]]]]])
qed

subsection \<open>Filter and rank\<close>

lemma keep_candidate_exact:
  assumes "map_option py_int (fmlookup config ''maxSize'') = map_option Inr limit"
    and "fmlookup config ''selectedQualityExclusion'' = map_option PList exclusion"
    and "\<bar>filesize d\<bar> < 2 ^ 53"
  shows "keep_candidate config d = Inr (passes_filters limit exclusion d)"
proof -
  have g: "filesize_gb (filesize d) = Inr (size_in_gib d)"
    using assms(3) by (simp add: filesize_gb_exact size_in_gib_def)
  have o: "over_max_size config (size_in_gib d) =
             Inr (case limit of None \<Rightarrow> False | Some c \<Rightarrow> of_int c < size_in_gib d)"
    using assms(1)
    by (cases limit; cases "fmlookup config ''maxSize''") (auto simp: over_max_size_def)
  have q: "quality_excluded config d =
             Inr (case exclusion of None \<Rightarrow> False | Some labels \<Rightarrow> PStr (quality d) \<in> set labels)"
    using assms(2) by (cases exclusion) (simp_all add: quality_excluded_def)
  show ?thesis
    by (cases limit; cases exclusion)
       (auto simp: keep_candidate_def g o q passes_filters_def not_less split: bool.splits)
qed

lemma valid_results_exact:
  assumes "map_option py_int (fmlookup config ''maxSize'') = map_option Inr limit"
    and "fmlookup config ''selectedQualityExclusion'' = map_option PList exclusion"
    and "\<forall>c \<in> set rs. \<bar>filesize (snd c)\<bar> < 2 ^ 53"
  shows "valid_results config rs = Inr (filter (\<lambda>c. passes_filters limit exclusion (snd c)) rs)"
  using assms(3)
proof (induction rs)
  case Nil
  then show ?case by simp
next
  case (Cons c rs)
  obtain l d where c: "c = (l, d)" by (cases c)
  from Cons.prems c have "keep_candidate config d = Inr (passes_filters limit exclusion d)"
    using keep_candidate_exact [OF assms(1,2)] by simp
  with Cons c show ?case by simp
qed

text \<open>
  C2, as the code has it. For a configuration whose ceiling, when the key is there, is
  read by \<^verbatim>\<open>int\<close> as the integer \<open>c\<close>, and whose exclusion set, when the key is there, is
  a list, and for candidates of fewer than \<open>2 ^ 53\<close> bytes each, the filter and rank step
  returns a list that holds exactly the candidates passing both filters (the size in
  GiB, the exact quotient, does not exceed the ceiling when a ceiling is configured;
  the quality label is not in the exclusion list when one is configured), each as often
  as in the input; the list is sorted by file size descending, and candidates of equal
  file size stand in their input order.
\<close>

theorem filter_and_rank_spec:
  assumes "map_option py_int (fmlookup config ''maxSize'') = map_option Inr limit"
    and "fmlookup config ''selectedQualityExclusion'' = map_option PList exclusion"
    and "\<forall>c \<in> set rs. \<bar>filesize (snd c)\<bar> < 2 ^ 53"
  shows "\<exists>out. filter_and_rank config rs = Inr out \<and>
           mset out = mset (filter (\<lambda>c. passes_filters limit exclusion (snd c)) rs) \<and>
           sorted_wrt (\<lambda>a b. filesize (snd a) \<ge> filesize (snd b)) out \<and>
           (\<forall>k. filter (\<lambda>c. filesize (snd c) = k) out =
                filter (\<lambda>c. filesize (snd c) = k)
                  (filter (\<lambda>c. passes_filters limit exclusion (snd c)) rs))"
proof -
  let ?vs = "filter (\<lambda>c. passes_filters limit exclusion (snd c)) rs"
  let ?out = "sort_by_filesize ?vs"
  have r: "filter_and_rank config rs = Inr ?out"
    by (simp add: filter_and_rank_def valid_results_exact [OF assms])
  have m: "mset ?out = mset ?vs"
    by (simp add: sort_by_filesize_def)
  have "sorted (map (\<lambda>x. - filesize (snd x)) ?out)"
    by (simp add: sort_by_filesize_def)
  then have s: "sorted_wrt (\<lambda>a b. filesize (snd a) \<ge> filesize (snd b)) ?out"
    by (simp add: sorted_wrt_map)
  have t: "filter (\<lambda>c. filesize (snd c) = k) ?out = filter (\<lambda>c. filesize (snd c) = k) ?vs" for k
    using sort_key_stable [of "\<lambda>x. - filesize (snd x)" "- k" ?vs]
    by (simp add: sort_by_filesize_def)
  show ?thesis
    using r m s t by blast
qed

theorem filter_and_rank_spec_witness:
  "map_option py_int (fmlookup form_config ''maxSize'') = map_option Inr (Some 10) \<and>
   fmlookup form_config ''selectedQualityExclusion'' = map_option PList (Some [PStr ''CAM'']) \<and>
   list_all (\<lambda>c. \<bar>filesize (snd c)\<bar> < 2 ^ 53) sample_results \<and>
   filter (\<lambda>c. passes_filters (Some 10) (Some [PStr ''CAM'']) (snd c)) sample_results
     = [cand ''L1'' 5368709120 ''1080p'', cand ''L4'' 5368709120 ''720p'',
        cand ''L5'' 8589934592 ''1080p''] \<and>
   filter_and_rank form_config sample_results
     = Inr [cand ''L5'' 8589934592 ''1080p'', cand ''L1'' 5368709120 ''1080p'',
            cand ''L4'' 5368709120 ''720p'']"
proof -
  have i: "int_of_str '' 10 '' = Some 10"
    by (simp add: int_of_str_def strip_def is_space_def nat_of_str_def is_digit_def digit_val_def)
  have h1: "map_option py_int (fmlookup form_config ''maxSize'') = map_option Inr (Some 10)"
    by (simp add: form_config_def i)
  have h2: "fmlookup form_config ''selectedQualityExclusion'' = map_option PList (Some [PStr ''CAM''])"
    by (simp add: form_config_def)
  have h3: "\<forall>c \<in> set sample_results. \<bar>filesize (snd c)\<bar> < 2 ^ 53"
    by (simp add: sample_results_def cand_def)
  have p: "filter (\<lambda>c. passes_filters (Some 10) (Some [PStr ''CAM'']) (snd c)) sample_results
           = [cand ''L1'' 5368709120 ''1080p'', cand ''L4'' 5368709120 ''720p'',
              cand ''L5'' 8589934592 ''1080p'']"
    by (simp add: passes_filters_def size_in_gib_def sample_results_def cand_def)
  from filter_and_rank_spec [OF h1 h2 h3] obtain out where
    o: "filter_and_rank form_config sample_results = Inr out"
    and m: "mset out = mset (filter (\<lambda>c. passes_filters (Some 10) (Some [PStr ''CAM'']) (snd c))
                               sample_results)"
    by blast
  have e: "sort_by_filesize [cand ''L1'' 5368709120 ''1080p'', cand ''L4'' 5368709120 ''720p'',
              cand ''L5'' 8589934592 ''1080p'']
           = [cand ''L5'' 8589934592 ''1080p'', cand ''L1'' 5368709120 ''1080p'',
              cand ''L4'' 5368709120 ''720p'']"
    by (simp add: sort_by_filesize_def cand_def)
  have c: "filter_and_rank form_config sample_results
     = Inr [cand ''L5'' 8589934592 ''1080p'', cand ''L1'' 5368709120 ''1080p'',
            cand ''L4'' 5368709120 ''720p'']"
    unfolding filter_and_rank_def valid_results_exact [OF h1 h2 h3] p by (simp add: e)
  from o c have "out = [cand ''L5'' 8589934592 ''1080p'', cand ''L1'' 5368709120 ''1080p'',
            cand ''L4'' 5368709120 ''720p'']"
    by simp
  with o have r: "filter_and_rank form_config sample_results
     = Inr [cand ''L5'' 8589934592 ''1080p'', cand ''L1'' 5368709120 ''1080p'',
            cand ''L4'' 5368709120 ''720p'']"
    by simp
  have h3': "list_all (\<lambda>c. \<bar>filesize (snd c)\<bar> < 2 ^ 53) sample_results"
    using h3 by (simp add: list_all_iff)
  show ?thesis
    by (rule conjI [OF h1 conjI [OF h2 conjI [OF h3' conjI [OF p r]]]])
qed

text \<open>
  C2, as stated, fails. A ceiling that \<^verbatim>\<open>int\<close> does not read (here the empty string) makes
  the step raise at the first candidate, so that there is no output at all. And a
  candidate of \<open>2 ^ 54 + 1\<close> bytes is kept under a ceiling of \<open>2 ^ 24\<close> GiB although its size
  in GiB exceeds the ceiling, because the number compared is the quotient rounded to a
  float.
\<close>

theorem filter_and_rank_counterexample:
  "filter_and_rank empty_ceiling_config [cand ''L1'' 5368709120 ''1080p''] = Inl ValueError \<and>
   filter_and_rank (ceiling_config 16777216 []) [cand ''L1'' 18014398509481985 ''1080p'']
     = Inr [cand ''L1'' 18014398509481985 ''1080p''] \<and>
   size_in_gib (snd (cand ''L1'' 18014398509481985 ''1080p'')) > 16777216 \<and>
   \<not> passes_filters (Some 16777216) (Some []) (snd (cand ''L1'' 18014398509481985 ''1080p''))"
proof -
  have g1: "filesize_gb 5368709120 = Inr 5"
    by (simp add: filesize_gb_exact)
  have i: "int_of_str [] = None"
    by (simp add: int_of_str_def strip_def)
  have a: "filter_and_rank empty_ceiling_config [cand ''L1'' 5368709120 ''1080p''] = Inl ValueError"
    by (simp add: filter_and_rank_def keep_candidate_def cand_def g1 over_max_size_def
        empty_ceiling_config_def i)
  have g2: "filesize_gb 18014398509481985 = Inr 16777216"
    by (simp add: filesize_gb_def round53_above_2_54)
  have b: "filter_and_rank (ceiling_config 16777216 []) [cand ''L1'' 18014398509481985 ''1080p'']
             = Inr [cand ''L1'' 18014398509481985 ''1080p'']"
    by (simp add: filter_and_rank_def keep_candidate_def cand_def g2 over_max_size_def
        quality_excluded_def ceiling_config_def sort_by_filesize_def)
  have c: "size_in_gib (snd (cand ''L1'' 18014398509481985 ''1080p'')) > 16777216"
    by (simp add: size_in_gib_def cand_def)
  have d: "\<not> passes_filters (Some 16777216) (Some []) (snd (cand ''L1'' 18014398509481985 ''1080p''))"
    by (simp add: passes_filters_def size_in_gib_def cand_def)
  show ?thesis
    by (rule conjI [OF a conjI [OF b conjI [OF c d]]])
qed

text \<open>
  C9, as the code has it. For a candidate of size \<open>s\<close> (below \<open>2 ^ 1053\<close> bytes, so that the
  quotient is a finite float) the number \<open>g\<close> compared with the ceiling is a binary64 float
  nearest to the quotient of \<open>s\<close> by \<open>2 ^ 30\<close>, the one with the even mantissa when two floats
  are equally near; for \<open>s\<close> below \<open>2 ^ 53\<close> it is exactly the quotient, not rounded. The
  ceiling test drops the candidate if and only if \<open>g\<close> is strictly greater than the
  configured ceiling; a candidate that it does not drop is left to the exclusion test.
\<close>

theorem size_gb_nearest_float:
  assumes "fmlookup config ''maxSize'' = Some v" and "py_int v = Inr c"
    and "\<bar>filesize d\<bar> < 2 ^ 1053"
  shows "\<exists>g. filesize_gb (filesize d) = Inr g \<and> significant 53 g \<and>
           (\<forall>x. significant 53 x \<longrightarrow> \<bar>g - size_in_gib d\<bar> \<le> \<bar>x - size_in_gib d\<bar>) \<and>
           (\<forall>x. significant 53 x \<and> x \<noteq> g \<and> \<bar>x - size_in_gib d\<bar> = \<bar>g - size_in_gib d\<bar> \<longrightarrow>
                significant 52 g) \<and>
           (\<bar>filesize d\<bar> < 2 ^ 53 \<longrightarrow> g = size_in_gib d) \<and>
           keep_candidate config d =
             (if rat_of_int c < g then Inr False
              else case quality_excluded config d of
                     Inl e \<Rightarrow> Inl e
                   | Inr excluded \<Rightarrow> Inr (\<not> excluded))"
proof -
  let ?s = "filesize d"
  let ?g = "rat_of_int (round53 ?s) / 2 ^ 30"
  have f: "filesize_gb ?s = Inr ?g"
    using round53_finite [OF assms(3)] by (simp add: filesize_gb_def)
  have s: "significant 53 ?g"
    using round53_significant_int [of ?s] by (rule significant_divide)
  have d: "\<bar>x - size_in_gib d\<bar> = \<bar>x * 2 ^ 30 - rat_of_int ?s\<bar> / 2 ^ 30" for x
  proof -
    have "x - size_in_gib d = (x * 2 ^ 30 - rat_of_int ?s) / 2 ^ 30"
      by (simp add: size_in_gib_def diff_divide_distrib)
    then show ?thesis by (simp only: abs_divide) simp
  qed
  have dg: "\<bar>?g - size_in_gib d\<bar> = \<bar>rat_of_int (round53 ?s) - rat_of_int ?s\<bar> / 2 ^ 30"
    using d [of ?g] by simp
  have n: "\<bar>?g - size_in_gib d\<bar> \<le> \<bar>x - size_in_gib d\<bar>" if "significant 53 x" for x
  proof -
    from that have "significant 53 (x * 2 ^ 30)" by (rule significant_times)
    from round53_nearest [OF this, of ?s] show ?thesis
      unfolding dg d [of x] by (simp add: divide_right_mono)
  qed
  have t: "significant 52 ?g"
    if "significant 53 x" and "x \<noteq> ?g" and "\<bar>x - size_in_gib d\<bar> = \<bar>?g - size_in_gib d\<bar>" for x
  proof -
    from that(1) have 1: "significant 53 (x * 2 ^ 30)" by (rule significant_times)
    from that(2) have 2: "x * 2 ^ 30 \<noteq> rat_of_int (round53 ?s)"
      by (auto simp: field_simps)
    from that(3) have 3: "\<bar>x * 2 ^ 30 - rat_of_int ?s\<bar> = \<bar>rat_of_int (round53 ?s) - rat_of_int ?s\<bar>"
      unfolding dg d [of x] by simp
    from round53_tie [OF 1 2 3] show ?thesis by (rule significant_divide)
  qed
  have e: "?g = size_in_gib d" if "\<bar>?s\<bar> < 2 ^ 53"
    using round53_exact [OF that] by (simp add: size_in_gib_def)
  have o: "over_max_size config x = Inr (rat_of_int c < x)" for x
    using assms(1,2) by (simp add: over_max_size_def)
  have k: "keep_candidate config d =
             (if rat_of_int c < ?g then Inr False
              else case quality_excluded config d of
                     Inl e \<Rightarrow> Inl e
                   | Inr excluded \<Rightarrow> Inr (\<not> excluded))"
    by (simp add: keep_candidate_def f o split: bool.splits)
  show ?thesis
    using f s n t e k by blast
qed

theorem size_gb_nearest_float_witness:
  "fmlookup (ceiling_config 4 []) ''maxSize'' = Some (PInt 4) \<and> py_int (PInt 4) = Inr 4 \<and>
   \<bar>filesize (snd (cand ''L1'' 5368709120 ''1080p''))\<bar> < 2 ^ 53 \<and>
   filesize_gb 5368709120 = Inr 5 \<and>
   size_in_gib (snd (cand ''L1'' 5368709120 ''1080p'')) = 5 \<and>
   keep_candidate (ceiling_config 4 []) (snd (cand ''L1'' 5368709120 ''1080p'')) = Inr False \<and>
   keep_candidate (ceiling_config 5 []) (snd (cand ''L1'' 5368709120 ''1080p'')) = Inr True \<and>
   filesize_gb 18014398509481987 = Inr (18014398509481988 / 2 ^ 30) \<and>
   significant 53 (16777216 :: rat) \<and>
   \<bar>18014398509481988 / 2 ^ 30 - size_in_gib (snd (cand ''L2'' 18014398509481987 ''4K''))\<bar>
     \<le> \<bar>16777216 - size_in_gib (snd (cand ''L2'' 18014398509481987 ''4K''))\<bar> \<and>
   keep_candidate (ceiling_config 16777216 []) (snd (cand ''L2'' 18014398509481987 ''4K'')) = Inr False \<and>
   filesize_gb 9007199254740993 = Inr 8388608 \<and>
   significant 52 (8388608 :: rat)"
proof -
  let ?d1 = "snd (cand ''L1'' 5368709120 ''1080p'')"
  let ?d2 = "snd (cand ''L2'' 18014398509481987 ''4K'')"
  let ?d3 = "snd (cand ''L3'' 9007199254740993 ''4K'')"
  have m: "fmlookup (ceiling_config n []) ''maxSize'' = Some (PInt n)" for n
    by (simp add: ceiling_config_def)
  have i: "py_int (PInt n) = Inr n" for n
    by simp
  have q: "quality_excluded (ceiling_config n []) d = Inr False" for n d
    by (simp add: quality_excluded_def ceiling_config_def)
  have s1: "\<bar>filesize ?d1\<bar> < 2 ^ 53"
    by (simp add: cand_def)
  have b1: "\<bar>filesize ?d1\<bar> < 2 ^ 1053"
    using s1 by (rule less_trans) simp
  have f1: "filesize_gb 5368709120 = Inr 5"
    by (simp add: filesize_gb_exact)
  have e1: "size_in_gib ?d1 = 5"
    by (simp add: size_in_gib_def cand_def)
  have k1: "keep_candidate (ceiling_config 4 []) ?d1 = Inr False"
  proof -
    from size_gb_nearest_float [OF m i b1] obtain g where
      g: "filesize_gb (filesize ?d1) = Inr g"
      and k: "keep_candidate (ceiling_config 4 []) ?d1 =
                (if rat_of_int 4 < g then Inr False
                 else case quality_excluded (ceiling_config 4 []) ?d1 of
                        Inl e \<Rightarrow> Inl e | Inr excluded \<Rightarrow> Inr (\<not> excluded))"
      by blast
    from g f1 have "g = 5" by (simp add: cand_def)
    with k show ?thesis by simp
  qed
  have k2: "keep_candidate (ceiling_config 5 []) ?d1 = Inr True"
  proof -
    from size_gb_nearest_float [OF m i b1] obtain g where
      g: "filesize_gb (filesize ?d1) = Inr g"
      and k: "keep_candidate (ceiling_config 5 []) ?d1 =
                (if rat_of_int 5 < g then Inr False
                 else case quality_excluded (ceiling_config 5 []) ?d1 of
                        Inl e \<Rightarrow> Inl e | Inr excluded \<Rightarrow> Inr (\<not> excluded))"
      by blast
    from g f1 have "g = 5" by (simp add: cand_def)
    with k show ?thesis by (simp add: q)
  qed
  have r2: "round53 18014398509481987 = 18014398509481988"
  proof -
    have b: "bit_length 18014398509481987 = 55"
      by (simp add: bit_length.simps)
    show ?thesis
      by (simp add: round53_def Let_def b)
  qed
  have f2: "filesize_gb 18014398509481987 = Inr (18014398509481988 / 2 ^ 30)"
    by (simp add: filesize_gb_def r2)
  have b2: "\<bar>filesize ?d2\<bar> < 2 ^ 1053"
    by (simp add: cand_def)
  have x2: "significant 53 (16777216 :: rat)"
    using significant_nat [of 1 53 24] by simp
  from size_gb_nearest_float [OF m i b2] obtain g2 where
    g2: "filesize_gb (filesize ?d2) = Inr g2"
    and n2: "\<forall>x. significant 53 x \<longrightarrow> \<bar>g2 - size_in_gib ?d2\<bar> \<le> \<bar>x - size_in_gib ?d2\<bar>"
    and k3: "keep_candidate (ceiling_config 16777216 []) ?d2 =
                (if rat_of_int 16777216 < g2 then Inr False
                 else case quality_excluded (ceiling_config 16777216 []) ?d2 of
                        Inl e \<Rightarrow> Inl e | Inr excluded \<Rightarrow> Inr (\<not> excluded))"
    by blast
  from g2 f2 have v2: "g2 = 18014398509481988 / 2 ^ 30"
    by (simp add: cand_def)
  from n2 x2 have a2: "\<bar>g2 - size_in_gib ?d2\<bar> \<le> \<bar>16777216 - size_in_gib ?d2\<bar>"
    by blast
  have n: "\<bar>18014398509481988 / 2 ^ 30 - size_in_gib ?d2\<bar> \<le> \<bar>16777216 - size_in_gib ?d2\<bar>"
    using a2 unfolding v2 .
  have k4: "keep_candidate (ceiling_config 16777216 []) ?d2 = Inr False"
    using k3 unfolding v2 by simp
  have r3: "round53 9007199254740993 = 9007199254740992"
  proof -
    have b: "bit_length 9007199254740993 = 54"
      by (simp add: bit_length.simps)
    show ?thesis
      by (simp add: round53_def Let_def b)
  qed
  have f3: "filesize_gb 9007199254740993 = Inr 8388608"
    by (simp add: filesize_gb_def r3)
  have b3: "\<bar>filesize ?d3\<bar> < 2 ^ 1053"
    by (simp add: cand_def)
  have x3: "significant 53 (9007199254740994 / 2 ^ 30 :: rat)"
    using significant_divide [OF significant_nat [of 4503599627370497 53 1], of 30] by simp
  from size_gb_nearest_float [OF m i b3] obtain g3 where
    g3: "filesize_gb (filesize ?d3) = Inr g3"
    and t3: "\<forall>x. significant 53 x \<and> x \<noteq> g3 \<and> \<bar>x - size_in_gib ?d3\<bar> = \<bar>g3 - size_in_gib ?d3\<bar> \<longrightarrow>
                significant 52 g3"
    by blast
  from g3 f3 have v3: "g3 = 8388608"
    by (simp add: cand_def)
  have "(9007199254740994 / 2 ^ 30 :: rat) \<noteq> g3 \<and>
        \<bar>9007199254740994 / 2 ^ 30 - size_in_gib ?d3\<bar> = \<bar>g3 - size_in_gib ?d3\<bar>"
    unfolding v3 by (simp add: size_in_gib_def cand_def)
  with t3 x3 have "significant 52 g3"
    by blast
  then have t: "significant 52 (8388608 :: rat)"
    unfolding v3 .
  show ?thesis
    by (rule conjI [OF m conjI [OF i conjI [OF s1 conjI [OF f1 conjI [OF e1 conjI [OF k1 conjI [OF k2
          conjI [OF f2 conjI [OF x2 conjI [OF n conjI [OF k4 conjI [OF f3 t]]]]]]]]]]]])
qed

text \<open>
  C9, as stated, fails: for a size of \<open>2 ^ 54 + 1\<close> bytes the number compared with the ceiling
  is \<open>2 ^ 24\<close>, not the quotient of the size by \<open>2 ^ 30\<close>, and under a ceiling of \<open>2 ^ 24\<close> GiB the
  candidate is kept although the quotient strictly exceeds the ceiling.
\<close>

theorem ceiling_rounded_counterexample:
  "filesize_gb 18014398509481985 = Inr 16777216 \<and>
   size_in_gib (snd (cand ''L1'' 18014398509481985 ''1080p'')) \<noteq> 16777216 \<and>
   size_in_gib (snd (cand ''L1'' 18014398509481985 ''1080p'')) > rat_of_int 16777216 \<and>
   keep_candidate (ceiling_config 16777216 []) (snd (cand ''L1'' 18014398509481985 ''1080p'')) = Inr True"
proof -
  have g: "filesize_gb 18014398509481985 = Inr 16777216"
    by (simp add: filesize_gb_def round53_above_2_54)
  have n: "size_in_gib (snd (cand ''L1'' 18014398509481985 ''1080p'')) \<noteq> 16777216"
    by (simp add: size_in_gib_def cand_def)
  have q: "size_in_gib (snd (cand ''L1'' 18014398509481985 ''1080p'')) > rat_of_int 16777216"
    by (simp add: size_in_gib_def cand_def)
  have k: "keep_candidate (ceiling_config 16777216 []) (snd (cand ''L1'' 18014398509481985 ''1080p'')) = Inr True"
    by (simp add: keep_candidate_def cand_def g over_max_size_def quality_excluded_def ceiling_config_def)
  show ?thesis
    by (rule conjI [OF g conjI [OF n conjI [OF q k]]])
qed

subsection \<open>Listing\<close>

lemma info_map_step_origin:
  "foldl (\<lambda>m info. case info of Inl e \<Rightarrow> m | Inr i \<Rightarrow> m(snd i \<mapsto> i)) m infos l = Some x \<Longrightarrow>
   m l = Some x \<or> (Inr x \<in> set infos \<and> snd x = l)"
proof (induction infos arbitrary: m)
  case Nil
  then show ?case by simp
next
  case (Cons a infos)
  from Cons.IH [OF Cons.prems [simplified]] show ?case
    by (cases a) (auto split: if_splits)
qed

lemma info_map_origin:
  "info_map infos l = Some x \<Longrightarrow> Inr x \<in> set infos \<and> snd x = l"
  using info_map_step_origin [of Map.empty infos l x] by (simp add: info_map_def)

lemma annotate_failed:
  assumes "keyed_by_link get_file_info ls" and "l \<in> set ls" and "fetch_failed get_file_info l"
  shows "annotate detect_quality (info_map (file_infos get_file_info ls)) l =
           (l, \<lparr>data_link = l, filesize = 0, quality = [], nombre_fichero = None\<rparr>)"
proof (cases "info_map (file_infos get_file_info ls) l")
  case None
  then show ?thesis by (simp add: annotate_def Let_def)
next
  case (Some x)
  obtain info_data k where x: "x = (info_data, k)" by (cases x)
  from info_map_origin [OF Some] x obtain l' where
    l': "l' \<in> set ls" and g: "get_file_info l' = Inr (info_data, k)" and k: "k = l"
    by (auto simp: file_infos_def)
  from assms(1) l' g have "k = l'"
    by (auto simp: keyed_by_link_def list_all_iff)
  with k g have "get_file_info l = Inr (info_data, l)" by simp
  with assms(3) have "info_data = None" by (simp add: fetch_failed_def)
  with Some x show ?thesis by (simp add: annotate_def Let_def)
qed

text \<open>
  C7. When every fetch that returns files its result under the link it was asked for,
  the listing pipeline builds one candidate per link of the search result, in the
  order of the links; a candidate whose enrichment fetch failed (it raised, or it
  returned no info) carries file size 0, the empty quality label and no file name. No
  link is dropped because its fetch failed.
\<close>

theorem failed_enrichment_keeps_candidate:
  assumes "keyed_by_link get_file_info search_results"
  shows "map fst (results_data detect_quality get_file_info search_results) = search_results \<and>
         length (results_data detect_quality get_file_info search_results) = length search_results \<and>
         (\<forall>c \<in> set (results_data detect_quality get_file_info search_results).
            fetch_failed get_file_info (fst c) \<longrightarrow>
              snd c = \<lparr>data_link = fst c, filesize = 0, quality = [], nombre_fichero = None\<rparr>)"
proof -
  have f: "fst (annotate detect_quality im l) = l" for im l
    by (simp add: annotate_def Let_def)
  have a: "map fst (results_data detect_quality get_file_info search_results) = search_results"
    by (simp add: results_data_def f comp_def)
  have b: "length (results_data detect_quality get_file_info search_results) = length search_results"
    by (simp add: results_data_def)
  have c: "snd c = \<lparr>data_link = fst c, filesize = 0, quality = [], nombre_fichero = None\<rparr>"
    if "c \<in> set (results_data detect_quality get_file_info search_results)"
      and "fetch_failed get_file_info (fst c)" for c
  proof -
    from that(1) obtain l where l: "l \<in> set search_results"
      and c: "c = annotate detect_quality (info_map (file_infos get_file_info search_results)) l"
      by (auto simp: results_data_def)
    from c f have "fst c = l" by simp
    with that(2) have "fetch_failed get_file_info l" by simp
    from annotate_failed [OF assms l this] c show ?thesis by simp
  qed
  show ?thesis
    using a b c by blast
qed

theorem failed_enrichment_keeps_candidate_witness:
  "keyed_by_link fetch_sample sample_links \<and>
   fetch_failed fetch_sample ''https://1fichier.com/?b'' \<and>
   fetch_failed fetch_sample ''https://1fichier.com/?c'' \<and>
   map fst (results_data quality_sample fetch_sample sample_links) = sample_links \<and>
   length (results_data quality_sample fetch_sample sample_links) = 4 \<and>
   results_data quality_sample fetch_sample sample_links =
     [(''https://1fichier.com/?a'',
       \<lparr>data_link = ''https://1fichier.com/?a'', filesize = 5368709120, quality = ''1080p'',
        nombre_fichero = Some ''Movie.1080p.mkv''\<rparr>),
      (''https://1fichier.com/?b'',
       \<lparr>data_link = ''https://1fichier.com/?b'', filesize = 0, quality = [], nombre_fichero = None\<rparr>),
      (''https://1fichier.com/?c'',
       \<lparr>data_link = ''https://1fichier.com/?c'', filesize = 0, quality = [], nombre_fichero = None\<rparr>),
      (''https://uptobox.com/x'',
       \<lparr>data_link = ''https://uptobox.com/x'', filesize = 0, quality = [], nombre_fichero = None\<rparr>)]"
proof -
  have h: "keyed_by_link fetch_sample sample_links"
    by (simp add: keyed_by_link_def sample_links_def fetch_sample_def)
  have f1: "fetch_failed fetch_sample ''https://1fichier.com/?b''"
    by (simp add: fetch_failed_def fetch_sample_def)
  have f2: "fetch_failed fetch_sample ''https://1fichier.com/?c''"
    by (simp add: fetch_failed_def fetch_sample_def)
  note t = failed_enrichment_keeps_candidate [OF h, of quality_sample]
  have a: "map fst (results_data quality_sample fetch_sample sample_links) = sample_links"
    using t by (rule conjunct1)
  have b: "length (results_data quality_sample fetch_sample sample_links) = 4"
    using t by (simp add: sample_links_def)
  have c: "results_data quality_sample fetch_sample sample_links =
     [(''https://1fichier.com/?a'',
       \<lparr>data_link = ''https://1fichier.com/?a'', filesize = 5368709120, quality = ''1080p'',
        nombre_fichero = Some ''Movie.1080p.mkv''\<rparr>),
      (''https://1fichier.com/?b'',
       \<lparr>data_link = ''https://1fichier.com/?b'', filesize = 0, quality = [], nombre_fichero = None\<rparr>),
      (''https://1fichier.com/?c'',
       \<lparr>data_link = ''https://1fichier.com/?c'', filesize = 0, quality = [], nombre_fichero = None\<rparr>),
      (''https://uptobox.com/x'',
       \<lparr>data_link = ''https://uptobox.com/x'', filesize = 0, quality = [], nombre_fichero = None\<rparr>)]"
    by (simp add: results_data_def annotate_def Let_def info_map_def file_infos_def sample_links_def
        fetch_sample_def quality_sample_def sublist_code)
  show ?thesis
    by (rule conjI [OF h conjI [OF f1 conjI [OF f2 conjI [OF a conjI [OF b c]]]]])
qed

subsection \<open>Playback\<close>

lemma sample_config_not_empty: "sample_config \<noteq> fmempty"
proof
  assume "sample_config = fmempty"
  then have "fmlookup sample_config ''maxSize'' = fmlookup fmempty ''maxSize''" by simp
  then show False by (simp add: sample_config_def ceiling_config_def)
qed

lemma resolve_sample:
  "resolve_now decode_tag service_nested copy_nothing cfg film_query ''b64:film.mkv'' cached_world
     = (Inr (PStr ''https://cdn.example/file''), cached_world)"
  by (simp add: resolve_now_def decode_tag_def film_query_def service_nested_def
      get_unrestricted_link_def unrestrict_try_def link_to_unrestrict_def backend_def
      unlock_nested_def all_debrid_link_def)

text \<open>
  C1. For a playback request with a key and a configuration that parses, and an entry
  stored under the key: when the entry's configuration differs from the request's, the
  outcome is the one of the synchronous resolution (the lookup is a miss, neither the
  cached link nor an error of its own); when the two are equal, the outcome is the
  cached final link and the state is untouched.
\<close>

theorem cache_hit_needs_equal_config:
  assumes "query \<noteq> []" and "parse_config config_str = Inr config"
    and "final_links w query = Some cached_data"
  shows "(entry_config cached_data \<noteq> config \<longrightarrow>
            handle_playback parse_config decode get_debrid_service copy_file config_str query file_name w
              = resolve_now decode get_debrid_service copy_file config query file_name w) \<and>
         (entry_config cached_data = config \<longrightarrow>
            handle_playback parse_config decode get_debrid_service copy_file config_str query file_name w
              = (Inr (entry_final_link cached_data), w))"
  using assms by (simp add: handle_playback_def)

theorem cache_hit_needs_equal_config_witness:
  "film_query \<noteq> [] \<and> parse_sample ''other'' = Inr fmempty \<and> parse_sample ''cfg'' = Inr sample_config \<and>
   final_links cached_world film_query = Some cached_entry \<and>
   entry_config cached_entry \<noteq> fmempty \<and> entry_config cached_entry = sample_config \<and>
   handle_playback parse_sample decode_tag service_nested copy_nothing ''other'' film_query
       ''b64:film.mkv'' cached_world
     = (Inr (PStr ''https://cdn.example/file''), cached_world) \<and>
   handle_playback parse_sample decode_tag service_nested copy_nothing ''cfg'' film_query
       ''b64:film.mkv'' cached_world
     = (Inr (PStr ''https://cdn.example/cached''), cached_world)"
proof -
  have h1: "film_query \<noteq> []"
    by (simp add: film_query_def)
  have h2: "parse_sample ''other'' = Inr fmempty"
    by (simp add: parse_sample_def)
  have h3: "parse_sample ''cfg'' = Inr sample_config"
    by (simp add: parse_sample_def)
  have h4: "final_links cached_world film_query = Some cached_entry"
    by (simp add: cached_world_def film_query_def)
  have h5: "entry_config cached_entry \<noteq> fmempty"
    by (simp add: cached_entry_def sample_config_not_empty)
  have h6: "entry_config cached_entry = sample_config"
    by (simp add: cached_entry_def)
  have a: "handle_playback parse_sample decode_tag service_nested copy_nothing ''other'' film_query
       ''b64:film.mkv'' cached_world
     = (Inr (PStr ''https://cdn.example/file''), cached_world)"
    using cache_hit_needs_equal_config [where parse_config = parse_sample and config_str = "''other''"
        and config = fmempty and decode = decode_tag and get_debrid_service = service_nested
        and copy_file = copy_nothing and file_name = "''b64:film.mkv''", OF h1 h2 h4] h5
    by (simp add: resolve_sample)
  have b: "handle_playback parse_sample decode_tag service_nested copy_nothing ''cfg'' film_query
       ''b64:film.mkv'' cached_world
     = (Inr (PStr ''https://cdn.example/cached''), cached_world)"
    using cache_hit_needs_equal_config [where parse_config = parse_sample and config_str = "''cfg''"
        and config = sample_config and decode = decode_tag and get_debrid_service = service_nested
        and copy_file = copy_nothing and file_name = "''b64:film.mkv''", OF h1 h3 h4] h6
    by (simp add: cached_entry_def)
  show ?thesis
    by (rule conjI [OF h1 conjI [OF h2 conjI [OF h3 conjI [OF h4 conjI [OF h5 conjI [OF h6 conjI [OF a b]]]]]]])
qed

text \<open>
  C8. For a playback request with a key and a configuration that parses, whose key is
  not a hit with an equal configuration, and whose link and file name decode: the link is
  resolved with the backend built for the request's configuration; a link that comes
  back is returned, an absent result is the server error (status 500), and in both cases
  the hash of cached links is the one before.
\<close>

theorem playback_miss_resolves:
  assumes "query \<noteq> []" and "parse_config config_str = Inr config"
    and "case final_links w query of None \<Rightarrow> True | Some cached_data \<Rightarrow> entry_config cached_data \<noteq> config"
    and "decode query = Inr l" and "decode file_name = Inr name"
    and "get_debrid_service config = Inr ds"
    and "get_unrestricted_link copy_file ds l name w = (final_link, w1)"
  shows "(truthy final_link \<longrightarrow>
            handle_playback parse_config decode get_debrid_service copy_file config_str query file_name w
              = (Inr final_link, w1)) \<and>
         (\<not> truthy final_link \<longrightarrow>
            handle_playback parse_config decode get_debrid_service copy_file config_str query file_name w
              = (Inl HTTP_500, w1)) \<and>
         final_links w1 = final_links w"
proof -
  have "final_links w1 = final_links w"
    using get_unrestricted_link_final_links [of copy_file ds l name w] assms(7) by simp
  then show ?thesis
    using assms by (auto simp: handle_playback_def resolve_now_def split: option.splits)
qed

theorem playback_miss_resolves_witness:
  "film_query \<noteq> [] \<and> parse_sample ''other'' = Inr fmempty \<and>
   entry_config cached_entry \<noteq> fmempty \<and>
   decode_tag film_query = Inr film_link \<and> decode_tag ''b64:film.mkv'' = Inr ''film.mkv'' \<and>
   truthy (PStr ''https://cdn.example/file'') \<and>
   handle_playback parse_sample decode_tag service_nested copy_nothing ''other'' film_query
       ''b64:film.mkv'' cached_world
     = (Inr (PStr ''https://cdn.example/file''), cached_world) \<and>
   \<not> truthy PNone \<and>
   handle_playback parse_sample decode_tag service_empty copy_nothing ''other'' film_query
       ''b64:film.mkv'' cached_world
     = (Inl HTTP_500, cached_world)"
proof -
  have h1: "film_query \<noteq> []"
    by (simp add: film_query_def)
  have h2: "parse_sample ''other'' = Inr fmempty"
    by (simp add: parse_sample_def)
  have h5: "entry_config cached_entry \<noteq> fmempty"
    by (simp add: cached_entry_def sample_config_not_empty)
  have h3: "case final_links cached_world film_query of
              None \<Rightarrow> True | Some cached_data \<Rightarrow> entry_config cached_data \<noteq> fmempty"
    using h5 by (simp add: cached_world_def film_query_def)
  have h4: "decode_tag film_query = Inr film_link"
    by (simp add: decode_tag_def film_query_def film_link_def)
  have h6: "decode_tag ''b64:film.mkv'' = Inr ''film.mkv''"
    by (simp add: decode_tag_def)
  have s1: "service_nested fmempty = Inr (backend ''AllDebrid'' fmempty unlock_nested folder_none)"
    by (simp add: service_nested_def)
  have s2: "service_empty fmempty = Inr (backend ''AllDebrid'' fmempty unlock_empty folder_none)"
    by (simp add: service_empty_def)
  have g1: "get_unrestricted_link copy_nothing (backend ''AllDebrid'' fmempty unlock_nested folder_none)
              film_link ''film.mkv'' cached_world = (PStr ''https://cdn.example/file'', cached_world)"
    by (simp add: get_unrestricted_link_def unrestrict_try_def link_to_unrestrict_def backend_def
        unlock_nested_def all_debrid_link_def)
  have g2: "get_unrestricted_link copy_nothing (backend ''AllDebrid'' fmempty unlock_empty folder_none)
              film_link ''film.mkv'' cached_world = (PNone, cached_world)"
    by (simp add: get_unrestricted_link_def unrestrict_try_def link_to_unrestrict_def backend_def
        unlock_empty_def)
  have t1: "truthy (PStr ''https://cdn.example/file'')" by simp
  have t2: "\<not> truthy PNone" by simp
  have a: "handle_playback parse_sample decode_tag service_nested copy_nothing ''other'' film_query
       ''b64:film.mkv'' cached_world
     = (Inr (PStr ''https://cdn.example/file''), cached_world)"
    using playback_miss_resolves [where parse_config = parse_sample and config_str = "''other''"
        and config = fmempty and decode = decode_tag and get_debrid_service = service_nested
        and file_name = "''b64:film.mkv''", OF h1 h2 h3 h4 h6 s1 g1] t1 by simp
  have b: "handle_playback parse_sample decode_tag service_empty copy_nothing ''other'' film_query
       ''b64:film.mkv'' cached_world
     = (Inl HTTP_500, cached_world)"
    using playback_miss_resolves [where parse_config = parse_sample and config_str = "''other''"
        and config = fmempty and decode = decode_tag and get_debrid_service = service_empty
        and file_name = "''b64:film.mkv''", OF h1 h2 h3 h4 h6 s2 g2] t2 by simp
  show ?thesis
    by (rule conjI [OF h1 conjI [OF h2 conjI [OF h5 conjI [OF h4 conjI [OF h6 conjI [OF t1
          conjI [OF a conjI [OF t2 b]]]]]]]])
qed

end
